theory Spec2Isabelle
  imports Complex_Main "HOL-Library.Sublist"
begin

section \<open>Values shared by the services\<close>

text \<open>
  A JavaScript string is a sequence of UTF-16 code units; it is modelled by the list of
  their numeric values. In the vector store a JavaScript number is modelled by an exact
  real; the rounding, the overflow and the NaN of IEEE-754 doubles are modelled in the
  section on the cosine similarity in double precision. An embedding is an array of
  numbers; a value that may be \<^verbatim>\<open>undefined\<close> or \<^verbatim>\<open>null\<close> is an option.
\<close>

type_synonym jsstring = "nat list"

type_synonym embedding = "real list"

text \<open>A thrown \<^verbatim>\<open>Error\<close> object, identified by its message.\<close>

datatype error = Error jsstring

definition js :: "string \<Rightarrow> jsstring" where
  "js s = map of_char s"

section \<open>The vector store: \<^verbatim>\<open>services/qdrant.js\<close>\<close>

subsection \<open>Cosine similarity\<close>

text \<open>
  \<^verbatim>\<open>
  cosineSimilarity(a, b) {
    if (!a || !b || a.length !== b.length) return 0;
    let dot = 0, na = 0, nb = 0;
    for (let i = 0; i < a.length; i++) {
      dot += a[i] * b[i];
      na += a[i] * a[i];
      nb += b[i] * b[i];
    }
    if (na === 0 || nb === 0) return 0;
    return dot / (Math.sqrt(na) * Math.sqrt(nb));
  }
  \<close>
  The loop runs over both arrays at once; the guard before it makes them equally long.
  An array, even an empty one, is truthy, so \<^verbatim>\<open>!a\<close> holds exactly for a missing vector.
\<close>

fun cosine_loop :: "real list \<Rightarrow> real list \<Rightarrow> real \<times> real \<times> real \<Rightarrow> real \<times> real \<times> real" where
  "cosine_loop (x # xs) (y # ys) (dot, na, nb) =
     cosine_loop xs ys (dot + x * y, na + x * x, nb + y * y)"
| "cosine_loop _ _ acc = acc"

definition cosineSimilarity :: "embedding option \<Rightarrow> embedding option \<Rightarrow> real" where
  "cosineSimilarity a b =
     (case (a, b) of
        (Some u, Some v) \<Rightarrow>
          if length u \<noteq> length v then 0
          else (case cosine_loop u v (0, 0, 0) of
                  (dot, na, nb) \<Rightarrow>
                    if na = 0 \<or> nb = 0 then 0 else dot / (sqrt na * sqrt nb))
      | _ \<Rightarrow> 0)"

text \<open>The inner product and the squared norm the loop accumulates.\<close>

definition dot_product :: "real list \<Rightarrow> real list \<Rightarrow> real" where
  "dot_product u v = sum_list (map2 (*) u v)"

definition norm_sq :: "real list \<Rightarrow> real" where
  "norm_sq u = sum_list (map (\<lambda>x. x * x) u)"

definition zero_vector :: "real list \<Rightarrow> bool" where
  "zero_vector u = list_all (\<lambda>x. x = 0) u"

subsection \<open>Documents, points and the service state\<close>

text \<open>
  A document as the ingestion sources build it; every field but the id may be missing.
  \<^verbatim>\<open>{...document, embedding}\<close> adds the embedding, which is missing when the caller
  passes a document without one.
\<close>

record document =
  doc_id :: jsstring
  doc_title :: "jsstring option"
  doc_content :: "jsstring option"
  doc_url :: "jsstring option"
  doc_publishedAt :: "jsstring option"
  doc_source :: "jsstring option"
  doc_summary :: "jsstring option"

record embedded_document = document +
  embedding :: "embedding option"

text \<open>
  The payload of a stored point. \<^verbatim>\<open>createdAt\<close> is the reading of the clock at the
  call (\<^verbatim>\<open>new Date().toISOString()\<close>); the clock is a parameter of the operations.
\<close>

record payload =
  title :: "jsstring option"
  content :: "jsstring option"
  url :: "jsstring option"
  publishedAt :: "jsstring option"
  source :: "jsstring option"
  summary :: jsstring
  createdAt :: nat

record point =
  point_id :: jsstring
  vector :: "embedding option"
  payload :: payload

text \<open>A scored point, as the search pipeline and the networked backend produce it.\<close>

record scored =
  scored_id :: jsstring
  score :: real
  scored_payload :: payload

text \<open>A search result, as returned to the caller.\<close>

record search_result =
  result_id :: jsstring
  result_score :: real
  result_title :: "jsstring option"
  result_content :: "jsstring option"
  result_url :: "jsstring option"
  result_publishedAt :: "jsstring option"
  result_source :: "jsstring option"
  result_summary :: jsstring

text \<open>
  The statistics of a collection. In networked mode they are the backend's reply, whose
  \<^verbatim>\<open>points_count\<close> is a number or null.
\<close>

record collection_info =
  status :: jsstring
  points_count :: "int option"
  indexed_vectors_count :: "int option"
  vectors_count :: "int option"

text \<open>
  The networked backend is outside the repository. Its replies are parameters: what
  \<^verbatim>\<open>client.upsert\<close> answers to a batch of points (an error, or nothing), what
  \<^verbatim>\<open>client.search\<close> answers to a query, and what \<^verbatim>\<open>client.getCollection\<close> answers.
  They are consulted only when the service is not in fallback mode.
\<close>

record qdrant_client =
  upsert :: "point list \<Rightarrow> error option"
  search :: "embedding option \<Rightarrow> nat \<Rightarrow> real \<Rightarrow> error + scored list"
  getCollection :: "error + collection_info"

text \<open>
  The state of the service: \<^verbatim>\<open>this.fallback\<close> and \<^verbatim>\<open>this.memoryStore\<close>, an array of
  points in insertion order.
\<close>

record QdrantService =
  fallback :: bool
  memoryStore :: "point list"

subsection \<open>Upsert\<close>

text \<open>
  \<^verbatim>\<open>
  const point = { id: document.id, vector: document.embedding,
                  payload: { title: document.title, content: document.content,
                             url: document.url, publishedAt: document.publishedAt,
                             source: document.source, summary: document.summary || '',
                             createdAt: new Date().toISOString() } };
  \<close>
  An empty summary is falsy and is replaced by the empty string, which it already is.
\<close>

definition make_point :: "nat \<Rightarrow> 'a embedded_document_scheme \<Rightarrow> point" where
  "make_point now d =
     \<lparr> point_id = doc_id d,
       vector = embedding d,
       payload = \<lparr> title = doc_title d, content = doc_content d, url = doc_url d,
                   publishedAt = doc_publishedAt d, source = doc_source d,
                   summary = (case doc_summary d of None \<Rightarrow> [] | Some s \<Rightarrow> s),
                   createdAt = now \<rparr> \<rparr>"

text \<open>
  \<^verbatim>\<open>
  async storeDocument(document) {
    try {
      const point = ...;
      if (this.fallback) {
        // replace if exists
        this.memoryStore = this.memoryStore.filter(p => p.id !== point.id);
        this.memoryStore.push(point);
      } else {
        await this.client.upsert(this.collectionName, { wait: true, points: [point] });
      }
      return true;
    } catch (error) { throw error; }
  }
  \<close>
  The result is the error thrown, or the state after the call (the value returned is
  always \<^verbatim>\<open>true\<close>).
\<close>

definition storeDocument ::
  "qdrant_client \<Rightarrow> nat \<Rightarrow> 'a embedded_document_scheme \<Rightarrow> QdrantService \<Rightarrow> error + QdrantService" where
  "storeDocument client now d q =
     (let p = make_point now d in
      if fallback q then
        Inr (q\<lparr>memoryStore := filter (\<lambda>x. point_id x \<noteq> point_id p) (memoryStore q) @ [p]\<rparr>)
      else (case upsert client [p] of Some e \<Rightarrow> Inl e | None \<Rightarrow> Inr q))"

text \<open>
  \<^verbatim>\<open>
  async storeDocuments(documents) {
    try {
      const points = documents.map(doc => ({ ... }));
      if (this.fallback) {
        const ids = new Set(points.map(p => p.id));
        this.memoryStore = this.memoryStore.filter(p => !ids.has(p.id));
        this.memoryStore.push(...points);
      } else {
        await this.client.upsert(this.collectionName, { wait: true, points });
      }
      return true;
    } catch (error) { throw error; }
  }
  \<close>
\<close>

definition storeDocuments ::
  "qdrant_client \<Rightarrow> nat \<Rightarrow> 'a embedded_document_scheme list \<Rightarrow> QdrantService \<Rightarrow> error + QdrantService" where
  "storeDocuments client now ds q =
     (let points = map (make_point now) ds in
      if fallback q then
        (let ids = set (map point_id points) in
         Inr (q\<lparr>memoryStore := filter (\<lambda>x. point_id x \<notin> ids) (memoryStore q) @ points\<rparr>))
      else (case upsert client points of Some e \<Rightarrow> Inl e | None \<Rightarrow> Inr q))"

subsection \<open>Search\<close>

text \<open>
  \<^verbatim>\<open>
  async searchSimilar(queryEmbedding, limit = 5, scoreThreshold = 0.7) {
    try {
      if (this.fallback) {
        const results = this.memoryStore
          .map(p => ({ id: p.id, score: this.cosineSimilarity(queryEmbedding, p.vector),
                       payload: p.payload }))
          .filter(r => r.score >= scoreThreshold)
          .sort((a, b) => b.score - a.score)
          .slice(0, limit)
          .map(result => ({ id: result.id, score: result.score,
                            title: result.payload.title, ... }));
        return results;
      }
      const searchResult = await this.client.search(this.collectionName, { ... });
      return searchResult.map(result => ({ ... }));
    } catch (error) { throw error; }
  }
  \<close>
  \<^verbatim>\<open>limit\<close> is a number of results, a natural number, for which \<^verbatim>\<open>slice(0, limit)\<close>
  keeps the first \<^verbatim>\<open>limit\<close> elements. \<^verbatim>\<open>Array.prototype.sort\<close> is a stable sort, and
  the comparator \<^verbatim>\<open>b.score - a.score\<close> puts the larger score first; it is modelled by
  the stable insertion sort of the library on the negated score.
\<close>

definition score_point :: "embedding option \<Rightarrow> point \<Rightarrow> scored" where
  "score_point queryEmbedding p =
     \<lparr> scored_id = point_id p,
       score = cosineSimilarity queryEmbedding (vector p),
       scored_payload = payload p \<rparr>"

definition to_result :: "scored \<Rightarrow> search_result" where
  "to_result r =
     \<lparr> result_id = scored_id r,
       result_score = score r,
       result_title = title (scored_payload r),
       result_content = content (scored_payload r),
       result_url = url (scored_payload r),
       result_publishedAt = publishedAt (scored_payload r),
       result_source = source (scored_payload r),
       result_summary = summary (scored_payload r) \<rparr>"

definition sort_by_score :: "scored list \<Rightarrow> scored list" where
  "sort_by_score rs = sort_key (\<lambda>r. - score r) rs"

definition searchSimilar ::
  "qdrant_client \<Rightarrow> embedding option \<Rightarrow> nat \<Rightarrow> real \<Rightarrow> QdrantService \<Rightarrow> error + search_result list" where
  "searchSimilar client queryEmbedding limit scoreThreshold q =
     (if fallback q then
        Inr (map to_result
               (take limit
                  (sort_by_score
                     (filter (\<lambda>r. score r \<ge> scoreThreshold)
                        (map (score_point queryEmbedding) (memoryStore q))))))
      else (case search client queryEmbedding limit scoreThreshold of
              Inl e \<Rightarrow> Inl e
            | Inr searchResult \<Rightarrow> Inr (map to_result searchResult)))"

subsection \<open>Statistics\<close>

text \<open>
  \<^verbatim>\<open>
  async getCollectionInfo() {
    try {
      if (this.fallback) {
        return { status: 'yellow', points_count: this.memoryStore.length,
                 indexed_vectors_count: this.memoryStore.length,
                 vectors_count: this.memoryStore.length };
      }
      const info = await this.client.getCollection(this.collectionName);
      return info;
    } catch (error) { throw error; }
  }

  async countDocuments() {
    try {
      const info = await this.getCollectionInfo();
      return info.points_count || 0;
    } catch (error) { return 0; }
  }
  \<close>
  \<^verbatim>\<open>x || 0\<close> is 0 when \<^verbatim>\<open>x\<close> is null, undefined or 0, and \<^verbatim>\<open>x\<close> otherwise.
\<close>

definition getCollectionInfo :: "qdrant_client \<Rightarrow> QdrantService \<Rightarrow> error + collection_info" where
  "getCollectionInfo client q =
     (if fallback q then
        Inr \<lparr> status = js ''yellow'',
              points_count = Some (int (length (memoryStore q))),
              indexed_vectors_count = Some (int (length (memoryStore q))),
              vectors_count = Some (int (length (memoryStore q))) \<rparr>
      else getCollection client)"

definition countDocuments :: "qdrant_client \<Rightarrow> QdrantService \<Rightarrow> error + int" where
  "countDocuments client q =
     (case getCollectionInfo client q of
        Inl e \<Rightarrow> Inr 0
      | Inr info \<Rightarrow>
          Inr (case points_count info of
                 None \<Rightarrow> 0
               | Some n \<Rightarrow> if n = 0 then 0 else n))"

section \<open>Cosine similarity in double precision\<close>

text \<open>
  A JavaScript number is an IEEE-754 double: a finite value, one of the two infinities,
  or NaN. The sign of a zero is not represented: \<^verbatim>\<open>0 === -0\<close> holds, and the only
  operation that tells the two apart, a division by zero, never sees a negative zero in
  \<^verbatim>\<open>cosineSimilarity\<close>, whose divisor is a product of two square roots.
\<close>

datatype number = Finite real | PosInfinity | NegInfinity | NaN

text \<open>
  The result of an arithmetic operation is the exact result rounded to the nearest
  double, a tie going to the double whose last bit is even. Around \<open>x\<close> the doubles are
  the integer multiples of \<open>2\<close> to the power \<open>spacing_exponent x\<close>: the significand has
  53 bits, and below \<open>2\<close> to the \<open>-1022\<close> the spacing stays that of the subnormal numbers.
  A result that rounds to \<open>2\<close> to the \<open>1024\<close> or beyond is an infinity.
\<close>

definition round_half_even :: "real \<Rightarrow> int" where
  "round_half_even x =
     (let n = \<lfloor>x\<rfloor>; f = x - of_int n
      in if f < 1 / 2 then n else if 1 / 2 < f then n + 1 else if even n then n else n + 1)"

definition spacing_exponent :: "real \<Rightarrow> int" where
  "spacing_exponent x = max \<lfloor>log 2 \<bar>x\<bar>\<rfloor> (- 1022) - 52"

definition nearest_double :: "real \<Rightarrow> real" where
  "nearest_double x =
     of_int (round_half_even (x / 2 powr of_int (spacing_exponent x)))
       * 2 powr of_int (spacing_exponent x)"

definition round_to_double :: "real \<Rightarrow> number" where
  "round_to_double x =
     (let y = nearest_double x
      in if 2 ^ 1024 \<le> y then PosInfinity
         else if y \<le> - (2 ^ 1024) then NegInfinity
         else Finite y)"


fun times_number :: "number \<Rightarrow> number \<Rightarrow> number" where
  "times_number (Finite x) (Finite y) = round_to_double (x * y)"
| "times_number NaN _ = NaN"
| "times_number _ NaN = NaN"
| "times_number PosInfinity (Finite y) =
     (if y = 0 then NaN else if 0 < y then PosInfinity else NegInfinity)"
| "times_number NegInfinity (Finite y) =
     (if y = 0 then NaN else if 0 < y then NegInfinity else PosInfinity)"
| "times_number (Finite x) PosInfinity =
     (if x = 0 then NaN else if 0 < x then PosInfinity else NegInfinity)"
| "times_number (Finite x) NegInfinity =
     (if x = 0 then NaN else if 0 < x then NegInfinity else PosInfinity)"
| "times_number PosInfinity PosInfinity = PosInfinity"
| "times_number NegInfinity NegInfinity = PosInfinity"
| "times_number PosInfinity NegInfinity = NegInfinity"
| "times_number NegInfinity PosInfinity = NegInfinity"






text \<open>
  The values a sum of squares can take: a zero, a finite number that is at least the
  smallest positive double, or the positive infinity.
\<close>

fun nonnegative_number :: "number \<Rightarrow> bool" where
  "nonnegative_number (Finite r) = (r = 0 \<or> 2 powr (- 1074) \<le> r)"
| "nonnegative_number PosInfinity = True"
| "nonnegative_number NegInfinity = False"
| "nonnegative_number NaN = False"



section \<open>The embedding provider: \<^verbatim>\<open>services/embeddings.js\<close>\<close>

subsection \<open>Text preparation\<close>

text \<open>
  An argument of any type: the functions below test \<^verbatim>\<open>typeof text === 'string'\<close> and
  the truthiness of their argument, so the model keeps the kinds of value apart.
\<close>

datatype js_value =
  Undefined | Null | Boolean bool | Number real | String jsstring | Object

text \<open>
  The characters \<^verbatim>\<open>\s\<close> matches and \<^verbatim>\<open>trim()\<close> removes: the white space and line
  terminator code points of ECMAScript (tab, line feed, vertical tab, form feed, carriage
  return, space, no-break space, U+1680, U+2000 to U+200A, U+2028, U+2029, U+202F,
  U+205F, U+3000, U+FEFF).
\<close>

definition is_whitespace :: "nat \<Rightarrow> bool" where
  "is_whitespace c \<longleftrightarrow>
     c \<in> {9, 10, 11, 12, 13, 32, 160, 5760, 8232, 8233, 8239, 8287, 12288, 65279}
     \<or> (8192 \<le> c \<and> c \<le> 8202)"

text \<open>
  \<^verbatim>\<open>text.replace(/P+/g, r)\<close>: from left to right, every maximal run of characters in
  the class \<open>P\<close> is replaced by \<open>r\<close>.
\<close>

function replace_runs :: "(nat \<Rightarrow> bool) \<Rightarrow> jsstring \<Rightarrow> jsstring \<Rightarrow> jsstring" where
  "replace_runs P r [] = []"
| "replace_runs P r (c # cs) =
     (if P c then r @ replace_runs P r (dropWhile P cs) else c # replace_runs P r cs)"
  by pat_completeness auto
termination
  by (relation "measure (\<lambda>(P, r, cs). length cs)")
     (auto simp: less_Suc_eq_le length_dropWhile_le)

definition trim :: "jsstring \<Rightarrow> jsstring" where
  "trim s = rev (dropWhile is_whitespace (rev (dropWhile is_whitespace s)))"

text \<open>
  \<^verbatim>\<open>
  prepareTextForEmbedding(text, maxLength = 8192) {
    if (!text || typeof text !== 'string') { return ''; }
    let cleanText = text
      .replace(/\s+/g, ' ') // Replace multiple whitespace with single space
      .replace(/\n+/g, ' ') // Replace newlines with space
      .trim();
    if (cleanText.length > maxLength) {
      cleanText = cleanText.substring(0, maxLength) + '...';
    }
    return cleanText;
  }
  \<close>
  A missing \<^verbatim>\<open>maxLength\<close> is 8192. \<^verbatim>\<open>substring(0, n)\<close> keeps the first \<open>n\<close> characters
  and none when \<open>n\<close> is negative. The only falsy string is the empty one.
\<close>

definition clean_text :: "jsstring \<Rightarrow> jsstring" where
  "clean_text s =
     trim (replace_runs (\<lambda>c. c = 10) [32] (replace_runs is_whitespace [32] s))"

text \<open>
  What the cleaning is meant to compute, written without the regular expressions: the
  words of a text are its maximal runs of characters that are not white space, in order
  (\<open>split_ws\<close> carries the word being read), and \<open>join\<close> puts a separator between
  consecutive elements, as \<^verbatim>\<open>Array.prototype.join\<close> does.
\<close>

fun split_ws :: "jsstring \<Rightarrow> jsstring \<Rightarrow> jsstring list" where
  "split_ws w [] = (if w = [] then [] else [w])"
| "split_ws w (c # cs) =
     (if is_whitespace c then (if w = [] then [] else [w]) @ split_ws [] cs
      else split_ws (w @ [c]) cs)"

definition words_of :: "jsstring \<Rightarrow> jsstring list" where
  "words_of s = split_ws [] s"

fun join :: "jsstring \<Rightarrow> jsstring list \<Rightarrow> jsstring" where
  "join sep [] = []"
| "join sep [p] = p"
| "join sep (p # ps) = p @ sep @ join sep ps"

definition prepareTextForEmbedding :: "js_value \<Rightarrow> int option \<Rightarrow> jsstring" where
  "prepareTextForEmbedding text maxLength =
     (case text of
        String s \<Rightarrow>
          if s = [] then []
          else (let m = (case maxLength of None \<Rightarrow> 8192 | Some n \<Rightarrow> n);
                    cleanText = clean_text s
                in if int (length cleanText) > m
                   then take (nat m) cleanText @ js ''...''
                   else cleanText)
      | _ \<Rightarrow> [])"

text \<open>
  \<^verbatim>\<open>
  createEmbeddingText(document) {
    const parts = [];
    if (document.title) { parts.push(`Title: ${document.title}`); }
    if (document.summary) { parts.push(`Summary: ${document.summary}`); }
    if (document.content) {
      const maxContentLength = 6000;
      const content = document.content.length > maxContentLength
        ? document.content.substring(0, maxContentLength) + '...'
        : document.content;
      parts.push(`Content: ${content}`);
    }
    return this.prepareTextForEmbedding(parts.join('\n\n'));
  }
  \<close>
\<close>

text \<open>A field is pushed when it is truthy: present and not the empty string.\<close>

definition createEmbeddingText :: "'a document_scheme \<Rightarrow> jsstring" where
  "createEmbeddingText d =
     (let parts =
            (case doc_title d of
               None \<Rightarrow> []
             | Some t \<Rightarrow> if t = [] then [] else [js ''Title: '' @ t])
          @ (case doc_summary d of
               None \<Rightarrow> []
             | Some s \<Rightarrow> if s = [] then [] else [js ''Summary: '' @ s])
          @ (case doc_content d of
               None \<Rightarrow> []
             | Some c \<Rightarrow>
                 if c = [] then []
                 else [js ''Content: '' @
                       (if length c > 6000 then take 6000 c @ js ''...'' else c)])
      in prepareTextForEmbedding (String (join [10, 10] parts)) None)"

subsection \<open>Requests to the embedding model\<close>

text \<open>
  The \<^verbatim>\<open>embedding\<close> of an item of a response: missing (\<^verbatim>\<open>undefined\<close>), the JSON
  value \<^verbatim>\<open>null\<close>, or an array of numbers. The first two are falsy and the array is
  truthy; \<^verbatim>\<open>JSON.stringify\<close> tells the first two apart.
\<close>

datatype reply_embedding = Absent | JsonNull | Vector embedding

fun vector_of :: "reply_embedding \<Rightarrow> embedding option" where
  "vector_of (Vector v) = Some v"
| "vector_of _ = None"

text \<open>
  What \<^verbatim>\<open>axios.post\<close> does with a request is outside the repository. It either resolves
  with a response, whose \<^verbatim>\<open>data.data\<close> is missing or is a list of items, each with its
  \<^verbatim>\<open>embedding\<close>; or it rejects with an error that carries a response (rendered here as
  the text \<^verbatim>\<open>status - message\<close> the code builds from it), with an error that carries
  only the request, or with an error that carries neither (its message).
\<close>

datatype http_outcome =
    Response "reply_embedding list option"
  | ResponseError jsstring
  | NoResponse
  | SetupFailure jsstring

text \<open>
  The environment of one call of the orchestrator: the reading of the clock, the
  configured API key, the answer of the embedding model to the \<open>n\<close>-th request of the
  process and its input texts, the error with which the \<open>n\<close>-th command sent to Redis
  fails (none when Redis answers it), what the Redis client does with a value that is
  not a string (it rejects it with this error, or sends it), and the networked vector
  backend.
\<close>

record env =
  clock :: nat
  jinaApiKey :: "jsstring option"
  axios_post :: "nat \<Rightarrow> jsstring list \<Rightarrow> http_outcome"
  redis_failure :: "nat \<Rightarrow> error option"
  setEx_undefined :: "error option"
  backend :: qdrant_client

text \<open>
  The state the services share: the vector store; the Redis keys that hold cached
  embeddings, each with what its text parses to (a vector, or nothing when the text is
  not the JSON of a vector) and the time at which it expires; the number of commands
  sent to Redis and of requests sent to the embedding model so far; and two counters
  that are not in the source and only record what happened: the calls of
  \<^verbatim>\<open>generateEmbedding\<close> and the calls of \<^verbatim>\<open>storeDocument\<close> or \<^verbatim>\<open>storeDocuments\<close>.
\<close>

record world =
  qdrant :: QdrantService
  redis :: "jsstring \<rightharpoonup> embedding option \<times> nat"
  redis_commands :: nat
  http_requests :: nat
  provider_calls :: nat
  store_calls :: nat

text \<open>
  \<^verbatim>\<open>
  async generateEmbeddings(texts) {
    try {
      if (!this.jinaApiKey) { throw new Error('JINA_API_KEY is not configured'); }
      const inputTexts = Array.isArray(texts) ? texts : [texts];
      const validTexts = inputTexts.filter(
        text => text && typeof text === 'string' && text.trim().length > 0);
      if (validTexts.length === 0) {
        throw new Error('No valid text inputs provided for embedding generation');
      }
      const response = await axios.post(this.jinaApiUrl, { model, input: validTexts }, ...);
      if (!response.data || !response.data.data) {
        throw new Error('Invalid response from Jina API');
      }
      const embeddings = response.data.data.map(item => item.embedding);
      return Array.isArray(texts) ? embeddings : embeddings[0];
    } catch (error) {
      if (error.response) { throw new Error(`Jina API error: ${status} - ${message}`); }
      else if (error.request) {
        throw new Error('No response received from Jina API - check network connection'); }
      else { throw new Error(`Request setup error: ${error.message}`); }
    }
  }
  \<close>
  The function is modelled for an array of texts, the only way the repository calls it.
  The errors thrown inside the \<^verbatim>\<open>try\<close> block carry neither a response nor a request and
  leave through the last branch of the handler.
\<close>

definition valid_texts :: "js_value list \<Rightarrow> jsstring list" where
  "valid_texts texts =
     concat (map (\<lambda>t. case t of String s \<Rightarrow> if s \<noteq> [] \<and> trim s \<noteq> [] then [s] else []
                         | _ \<Rightarrow> []) texts)"

definition generateEmbeddings ::
  "env \<Rightarrow> js_value list \<Rightarrow> world \<Rightarrow> (error + reply_embedding list) \<times> world" where
  "generateEmbeddings e texts w =
     (if jinaApiKey e = None \<or> jinaApiKey e = Some [] then
        (Inl (Error (js ''Request setup error: JINA_API_KEY is not configured'')), w)
      else if valid_texts texts = [] then
        (Inl (Error (js ''Request setup error: No valid text inputs provided for embedding generation'')), w)
      else
        (case axios_post e (http_requests w) (valid_texts texts) of
           Response (Some items) \<Rightarrow> Inr items
         | Response None \<Rightarrow> Inl (Error (js ''Request setup error: Invalid response from Jina API''))
         | ResponseError m \<Rightarrow> Inl (Error (js ''Jina API error: '' @ m))
         | NoResponse \<Rightarrow>
             Inl (Error (js ''No response received from Jina API - check network connection''))
         | SetupFailure m \<Rightarrow> Inl (Error (js ''Request setup error: '' @ m)),
         w\<lparr>http_requests := http_requests w + 1\<rparr>))"

text \<open>
  \<^verbatim>\<open>
  async generateEmbedding(text) {
    try {
      const embeddings = await this.generateEmbeddings([text]);
      return embeddings[0];
    } catch (error) { throw error; }
  }
  \<close>
  \<^verbatim>\<open>embeddings[0]\<close> is undefined when the response holds no item.
\<close>

definition generateEmbedding ::
  "env \<Rightarrow> js_value \<Rightarrow> world \<Rightarrow> (error + reply_embedding) \<times> world" where
  "generateEmbedding e text w =
     (case generateEmbeddings e [text] (w\<lparr>provider_calls := provider_calls w + 1\<rparr>) of
        (Inl err, w') \<Rightarrow> (Inl err, w')
      | (Inr embeddings, w') \<Rightarrow>
          (Inr (case embeddings of [] \<Rightarrow> Absent | x # _ \<Rightarrow> x), w'))"

section \<open>The embedding cache: \<^verbatim>\<open>services/redis.js\<close>\<close>

text \<open>
  \<^verbatim>\<open>
  async cacheEmbedding(docId, embedding) {
    try {
      const key = `embedding:${docId}`;
      const embeddingStr = JSON.stringify(embedding);
      await this.client.setEx(key, 7 * 24 * 60 * 60, embeddingStr); // 7 days TTL
      return true;
    } catch (error) { throw error; }
  }

  async getCachedEmbedding(docId) {
    try {
      const key = `embedding:${docId}`;
      const embeddingStr = await this.client.get(key);
      return embeddingStr ? JSON.parse(embeddingStr) : null;
    } catch (error) { return null; }
  }
  \<close>
  The Redis server is outside the repository. It is modelled by what \<^verbatim>\<open>SETEX\<close> and
  \<^verbatim>\<open>GET\<close> are: a key holds the value last set and the time at which it expires, and is
  read as absent from that time on. Each command fails or not as the environment says
  for it (a command on a \<^verbatim>\<open>this.client\<close> that is still null fails too), so that a failed
  read can be followed by a write that works.

  The text stored for an array is its JSON, which parses back to the array. The text
  stored for \<^verbatim>\<open>null\<close> is \<^verbatim>\<open>'null'\<close>, which parses back to \<^verbatim>\<open>null\<close>.
  \<^verbatim>\<open>JSON.stringify(undefined)\<close> is not a string: the client either rejects it, with the
  error the environment names, or sends a text, and no text it can send parses to an
  array (parsing fails, and the handler returns \<^verbatim>\<open>null\<close>). So the model keeps, for a
  key, what its text is read back as: the array, or nothing.
\<close>

definition embedding_ttl :: nat where
  "embedding_ttl = 7 * 24 * 60 * 60"

definition embedding_key :: "jsstring \<Rightarrow> jsstring" where
  "embedding_key docId = js ''embedding:'' @ docId"

text \<open>The argument \<open>n\<close> is the number of commands sent to Redis before this one.\<close>

definition cacheEmbedding ::
  "env \<Rightarrow> nat \<Rightarrow> jsstring \<Rightarrow> reply_embedding \<Rightarrow> (jsstring \<rightharpoonup> embedding option \<times> nat)
     \<Rightarrow> error + (jsstring \<rightharpoonup> embedding option \<times> nat)" where
  "cacheEmbedding e n docId emb r =
     (case (emb, setEx_undefined e) of
        (Absent, Some err) \<Rightarrow> Inl err
      | _ \<Rightarrow>
          (case redis_failure e n of
             Some err \<Rightarrow> Inl err
           | None \<Rightarrow> Inr (r(embedding_key docId \<mapsto> (vector_of emb, clock e + embedding_ttl)))))"

definition getCachedEmbedding ::
  "env \<Rightarrow> nat \<Rightarrow> jsstring \<Rightarrow> (jsstring \<rightharpoonup> embedding option \<times> nat) \<Rightarrow> embedding option" where
  "getCachedEmbedding e n docId r =
     (case redis_failure e n of
        Some err \<Rightarrow> None
      | None \<Rightarrow>
          (case r (embedding_key docId) of
             None \<Rightarrow> None
           | Some (v, expires) \<Rightarrow> if clock e < expires then v else None))"

section \<open>The orchestrator: \<^verbatim>\<open>services/rag.js\<close>\<close>

definition defaultTopK :: nat where
  "defaultTopK = 5"

definition defaultScoreThreshold :: real where
  "defaultScoreThreshold = 7 / 10"

subsection \<open>Retrieval\<close>

text \<open>
  \<^verbatim>\<open>
  async retrieveRelevantDocuments(query, topK = this.defaultTopK,
                                  scoreThreshold = this.defaultScoreThreshold) {
    try {
      const queryEmbedding = await embeddingsService.generateEmbedding(query);
      if (!queryEmbedding) { throw new Error('Failed to generate query embedding'); }
      const similarDocs = await qdrantService.searchSimilar(queryEmbedding, topK, scoreThreshold);
      return similarDocs;
    } catch (error) { throw error; }
  }
  \<close>
  The handler logs and throws the error it caught, so every error leaves unchanged.
\<close>

definition retrieveRelevantDocuments ::
  "env \<Rightarrow> js_value \<Rightarrow> nat option \<Rightarrow> real option \<Rightarrow> world
     \<Rightarrow> (error + search_result list) \<times> world" where
  "retrieveRelevantDocuments e query topK scoreThreshold w =
     (let k = (case topK of None \<Rightarrow> defaultTopK | Some n \<Rightarrow> n);
          t = (case scoreThreshold of None \<Rightarrow> defaultScoreThreshold | Some x \<Rightarrow> x)
      in case generateEmbedding e query w of
           (Inl err, w1) \<Rightarrow> (Inl err, w1)
         | (Inr (Vector queryEmbedding), w1) \<Rightarrow>
             (searchSimilar (backend e) (Some queryEmbedding) k t (qdrant w1), w1)
         | (Inr _, w1) \<Rightarrow> (Inl (Error (js ''Failed to generate query embedding'')), w1))"

subsection \<open>Ingestion\<close>

text \<open>
  Both ingestion functions obtain the embedding of a document with the same lines:
  \<^verbatim>\<open>
  const cachedEmbedding = await redisService.getCachedEmbedding(document.id);
  let embedding;
  if (cachedEmbedding) {
    embedding = cachedEmbedding;
  } else {
    const embeddingText = embeddingsService.createEmbeddingText(document);
    embedding = await embeddingsService.generateEmbedding(embeddingText);
    await redisService.cacheEmbedding(document.id, embedding);
  }
  \<close>
  A cached embedding is truthy when it is an array; a cached \<^verbatim>\<open>null\<close> is read as a
  miss. Each of the two calls of the cache sends one command to Redis.
\<close>

definition obtain_embedding ::
  "env \<Rightarrow> 'a document_scheme \<Rightarrow> world \<Rightarrow> (error + reply_embedding) \<times> world" where
  "obtain_embedding e d w =
     (case getCachedEmbedding e (redis_commands w) (doc_id d) (redis w) of
        Some cachedEmbedding \<Rightarrow>
          (Inr (Vector cachedEmbedding), w\<lparr>redis_commands := redis_commands w + 1\<rparr>)
      | None \<Rightarrow>
          (case generateEmbedding e (String (createEmbeddingText d))
                  (w\<lparr>redis_commands := redis_commands w + 1\<rparr>) of
             (Inl err, w1) \<Rightarrow> (Inl err, w1)
           | (Inr emb, w1) \<Rightarrow>
               (case cacheEmbedding e (redis_commands w1) (doc_id d) emb (redis w1) of
                  Inl err \<Rightarrow> (Inl err, w1\<lparr>redis_commands := redis_commands w1 + 1\<rparr>)
                | Inr r \<Rightarrow>
                    (Inr emb, w1\<lparr>redis := r, redis_commands := redis_commands w1 + 1\<rparr>))))"

text \<open>
  \<^verbatim>\<open>{ ...document, embedding }\<close>, whose embedding is a vector or, for \<^verbatim>\<open>undefined\<close> and
  \<^verbatim>\<open>null\<close> alike, none.
\<close>

definition with_embedding :: "'a document_scheme \<Rightarrow> embedding option \<Rightarrow> embedded_document" where
  "with_embedding d emb =
     \<lparr> doc_id = doc_id d, doc_title = doc_title d, doc_content = doc_content d,
       doc_url = doc_url d, doc_publishedAt = doc_publishedAt d, doc_source = doc_source d,
       doc_summary = doc_summary d, embedding = emb \<rparr>"

text \<open>
  \<^verbatim>\<open>
  async processAndStoreDocument(document) {
    try {
      ... obtain the embedding ...
      const documentWithEmbedding = { ...document, embedding };
      await qdrantService.storeDocument(documentWithEmbedding);
      return true;
    } catch (error) { throw error; }
  }
  \<close>
\<close>

definition processAndStoreDocument ::
  "env \<Rightarrow> 'a document_scheme \<Rightarrow> world \<Rightarrow> (error + bool) \<times> world" where
  "processAndStoreDocument e d w =
     (case obtain_embedding e d w of
        (Inl err, w1) \<Rightarrow> (Inl err, w1)
      | (Inr emb, w1) \<Rightarrow>
          (case storeDocument (backend e) (clock e) (with_embedding d (vector_of emb)) (qdrant w1) of
             Inl err \<Rightarrow> (Inl err, w1\<lparr>store_calls := store_calls w1 + 1\<rparr>)
           | Inr q \<Rightarrow> (Inr True, w1\<lparr>qdrant := q, store_calls := store_calls w1 + 1\<rparr>)))"

text \<open>
  \<^verbatim>\<open>
  async processAndStoreDocuments(documents) {
    try {
      const documentsWithEmbeddings = [];
      for (const document of documents) {
        try {
          ... obtain the embedding ...
          documentsWithEmbeddings.push({ ...document, embedding });
        } catch (error) {
          // Continue with other documents
        }
      }
      if (documentsWithEmbeddings.length > 0) {
        await qdrantService.storeDocuments(documentsWithEmbeddings);
      }
      return documentsWithEmbeddings.length;
    } catch (error) { throw error; }
  }
  \<close>
  The loop is a recursion over the documents that carries the array built so far and
  the state.
\<close>

fun embed_loop ::
  "env \<Rightarrow> 'a document_scheme list \<Rightarrow> embedded_document list \<Rightarrow> world
     \<Rightarrow> embedded_document list \<times> world" where
  "embed_loop e [] documentsWithEmbeddings w = (documentsWithEmbeddings, w)"
| "embed_loop e (d # ds) documentsWithEmbeddings w =
     (case obtain_embedding e d w of
        (Inl err, w1) \<Rightarrow> embed_loop e ds documentsWithEmbeddings w1
      | (Inr emb, w1) \<Rightarrow>
          embed_loop e ds (documentsWithEmbeddings @ [with_embedding d (vector_of emb)]) w1)"

definition processAndStoreDocuments ::
  "env \<Rightarrow> 'a document_scheme list \<Rightarrow> world \<Rightarrow> (error + nat) \<times> world" where
  "processAndStoreDocuments e ds w =
     (case embed_loop e ds [] w of
        (documentsWithEmbeddings, w1) \<Rightarrow>
          if length documentsWithEmbeddings > 0 then
            (case storeDocuments (backend e) (clock e) documentsWithEmbeddings (qdrant w1) of
               Inl err \<Rightarrow> (Inl err, w1\<lparr>store_calls := store_calls w1 + 1\<rparr>)
             | Inr q \<Rightarrow>
                 (Inr (length documentsWithEmbeddings),
                  w1\<lparr>qdrant := q, store_calls := store_calls w1 + 1\<rparr>))
          else (Inr (length documentsWithEmbeddings), w1))"

text \<open>
  The outcome of each document of a batch, in order: the error that made its step
  fail, or the embedding obtained for it, with the state the next document starts from.
\<close>

fun outcomes ::
  "env \<Rightarrow> 'a document_scheme list \<Rightarrow> world
     \<Rightarrow> ('a document_scheme \<times> (error + reply_embedding)) list" where
  "outcomes e [] w = []"
| "outcomes e (d # ds) w =
     (d, fst (obtain_embedding e d w)) # outcomes e ds (snd (obtain_embedding e d w))"

definition embedded :: "('a document_scheme \<times> (error + reply_embedding)) list \<Rightarrow> embedded_document list" where
  "embedded outs =
     concat (map (\<lambda>(d, r). case r of Inl err \<Rightarrow> []
                                  | Inr emb \<Rightarrow> [with_embedding d (vector_of emb)]) outs)"

section \<open>Example data\<close>

text \<open>Concrete clients, stores and documents at which the theorems are instantiated.\<close>

definition example_payload :: payload where
  "example_payload = \<lparr> title = None, content = None, url = None, publishedAt = None,
                         source = None, summary = [], createdAt = 0 \<rparr>"

definition example_client :: qdrant_client where
  "example_client = \<lparr> upsert = (\<lambda>ps. None), search = (\<lambda>v k t. Inr []),
                        getCollection = Inl (Error (js ''unreachable'')) \<rparr>"

definition example_store :: QdrantService where
  "example_store =
     \<lparr> fallback = True,
       memoryStore =
         [\<lparr> point_id = js ''a'', vector = Some [0, 1], payload = example_payload \<rparr>,
          \<lparr> point_id = js ''b'', vector = Some [2, 0], payload = example_payload \<rparr>,
          \<lparr> point_id = js ''c'', vector = Some [1, 0], payload = example_payload \<rparr>,
          \<lparr> point_id = js ''d'', vector = Some [4, 0], payload = example_payload \<rparr>] \<rparr>"

definition example_doc :: "embedding \<Rightarrow> embedded_document" where
  "example_doc v = \<lparr> doc_id = js ''a'', doc_title = Some (js ''t''), doc_content = None,
                     doc_url = None, doc_publishedAt = None, doc_source = None,
                     doc_summary = None, embedding = Some v \<rparr>"


definition reporting_client :: qdrant_client where
  "reporting_client =
     \<lparr> upsert = (\<lambda>ps. None), search = (\<lambda>v k t. Inr []),
       getCollection = Inr \<lparr> status = js ''green'', points_count = Some 7,
                              indexed_vectors_count = Some 7, vectors_count = None \<rparr> \<rparr>"

text \<open>
  An environment in which everything answers: the embedding model returns the vector
  \<open>[1, 0]\<close> for every text, Redis answers, and the clock reads 0. Its variants: the model
  answers with no item; the model answers with a null embedding; Redis does not answer the
  third command sent to it; the model does not answer the third request.
\<close>

definition example_env :: env where
  "example_env =
     \<lparr> clock = 0, jinaApiKey = Some (js ''key''),
       axios_post = (\<lambda>n texts. Response (Some (map (\<lambda>t. Vector [1, 0]) texts))),
       redis_failure = (\<lambda>n. None),
       setEx_undefined = Some (Error (js ''Invalid argument type'')),
       backend = example_client \<rparr>"

definition empty_response_env :: env where
  "empty_response_env = example_env\<lparr>axios_post := (\<lambda>n texts. Response (Some []))\<rparr>"

definition null_response_env :: env where
  "null_response_env = example_env\<lparr>axios_post := (\<lambda>n texts. Response (Some [JsonNull]))\<rparr>"

definition read_fails_env :: env where
  "read_fails_env =
     example_env\<lparr>clock := 100,
       redis_failure := (\<lambda>n. if n = 2 then Some (Error (js ''timeout'')) else None)\<rparr>"

definition third_request_fails_env :: env where
  "third_request_fails_env =
     example_env\<lparr>axios_post :=
       (\<lambda>n texts. if n = 2 then NoResponse else Response (Some (map (\<lambda>t. Vector [1, 0]) texts)))\<rparr>"

definition example_world :: world where
  "example_world =
     \<lparr> qdrant = \<lparr> fallback = True, memoryStore = [] \<rparr>, redis = Map.empty,
       redis_commands = 0, http_requests = 0, provider_calls = 0, store_calls = 0 \<rparr>"

text \<open>A document with the title \<^verbatim>\<open>a\<close> and nothing else, under a given id.\<close>

definition example_document :: "jsstring \<Rightarrow> document" where
  "example_document i =
     \<lparr> doc_id = i, doc_title = Some [97], doc_content = None, doc_url = None,
       doc_publishedAt = None, doc_source = None, doc_summary = None \<rparr>"

definition unreachable_model_env :: env where
  "unreachable_model_env = example_env\<lparr>axios_post := (\<lambda>n texts. NoResponse)\<rparr>"


text \<open>An environment whose networked vector backend rejects every upsert, and a state in networked mode.\<close>

definition failing_backend_env :: env where
  "failing_backend_env =
     example_env\<lparr>backend := example_client\<lparr>upsert := (\<lambda>ps. Some (Error (js ''down'')))\<rparr>\<rparr>"

definition networked_world :: world where
  "networked_world = example_world\<lparr>qdrant := \<lparr> fallback = False, memoryStore = [] \<rparr>\<rparr>"

text \<open>A batch of five documents, with the ids \<^verbatim>\<open>1\<close> to \<^verbatim>\<open>5\<close>.\<close>

definition example_batch :: "document list" where
  "example_batch = map example_document [[49], [50], [51], [52], [53]]"

text \<open>
  The state after the example document \<^verbatim>\<open>1\<close> has been ingested at time 0, with the
  vector the model returned, and with a null embedding.
\<close>

definition after_first :: world where
  "after_first =
     \<lparr> qdrant = \<lparr> fallback = True,
                  memoryStore = [make_point 0 (with_embedding (example_document [49]) (Some [1, 0]))] \<rparr>,
       redis = [embedding_key [49] \<mapsto> (Some [1, 0], embedding_ttl)],
       redis_commands = 2, http_requests = 1, provider_calls = 1, store_calls = 1 \<rparr>"

definition after_first_null :: world where
  "after_first_null =
     \<lparr> qdrant = \<lparr> fallback = True,
                  memoryStore = [make_point 0 (with_embedding (example_document [49]) None)] \<rparr>,
       redis = [embedding_key [49] \<mapsto> (None, embedding_ttl)],
       redis_commands = 2, http_requests = 1, provider_calls = 1, store_calls = 1 \<rparr>"

section \<open>Properties of the vector store\<close>

subsection \<open>Cosine similarity\<close>

lemma cosine_loop_sums:
  "length u = length v \<Longrightarrow>
   cosine_loop u v (d, p, q) = (d + dot_product u v, p + norm_sq u, q + norm_sq v)"
proof (induction u v "(d, p, q)" arbitrary: d p q rule: cosine_loop.induct)
  case (1 x xs y ys dot na nb)
  then show ?case by (simp add: dot_product_def norm_sq_def algebra_simps)
qed (simp_all add: dot_product_def norm_sq_def)

lemma norm_sq_nonneg: "0 \<le> norm_sq u"
  unfolding norm_sq_def by (induction u) simp_all

lemma norm_sq_zero_iff: "norm_sq u = 0 \<longleftrightarrow> zero_vector u"
proof (induction u)
  case Nil
  show ?case by (simp add: norm_sq_def zero_vector_def)
next
  case (Cons x xs)
  have "0 \<le> norm_sq xs" by (rule norm_sq_nonneg)
  moreover have "norm_sq (x # xs) = x * x + norm_sq xs" by (simp add: norm_sq_def)
  moreover have "0 \<le> x * x" by simp
  ultimately have "norm_sq (x # xs) = 0 \<longleftrightarrow> x = 0 \<and> norm_sq xs = 0"
    by (smt (verit) mult_eq_0_iff)
  with Cons show ?case by (simp add: zero_vector_def)
qed

lemma dot_product_self: "dot_product u u = norm_sq u"
  unfolding dot_product_def norm_sq_def by (induction u) simp_all

lemma cosineSimilarity_eq:
  "length u = length v \<Longrightarrow>
   cosineSimilarity (Some u) (Some v) =
     (if norm_sq u = 0 \<or> norm_sq v = 0 then 0
      else dot_product u v / (sqrt (norm_sq u) * sqrt (norm_sq v)))"
  by (simp add: cosineSimilarity_def cosine_loop_sums)

text \<open>
  The values of the similarity over exact real arithmetic: a vector that is not all
  zeros has similarity 1 with itself; two vectors whose inner product is zero have
  similarity 0; a vector of zero norm (all components zero) has similarity 0 with
  anything, on either side, the function returning that value rather than dividing by
  zero; and vectors of different dimension have similarity 0. The first two equalities
  are those of the real numbers: the sums, the square roots and the quotient of
  IEEE-754 doubles are rounded, and can overflow or underflow; the similarity in
  double precision is treated in a section of its own.
\<close>

lemma cosineSimilarity_exact:
  "(\<not> zero_vector u \<longrightarrow> cosineSimilarity (Some u) (Some u) = 1) \<and>
   (dot_product u v = 0 \<longrightarrow> cosineSimilarity (Some u) (Some v) = 0) \<and>
   (zero_vector u \<longrightarrow> cosineSimilarity (Some u) b = 0 \<and> cosineSimilarity b (Some u) = 0) \<and>
   (length u \<noteq> length v \<longrightarrow> cosineSimilarity (Some u) (Some v) = 0)"
proof (intro conjI impI)
  assume nz: "\<not> zero_vector u"
  then have pos: "0 < norm_sq u"
    using norm_sq_nonneg [of u] norm_sq_zero_iff [of u] by linarith
  then show "cosineSimilarity (Some u) (Some u) = 1"
    by (simp add: cosineSimilarity_eq dot_product_self)
next
  assume "dot_product u v = 0"
  then show "cosineSimilarity (Some u) (Some v) = 0"
  proof (cases "length u = length v")
    case True
    with \<open>dot_product u v = 0\<close> show ?thesis by (simp add: cosineSimilarity_eq)
  next
    case False
    then show ?thesis by (simp add: cosineSimilarity_def)
  qed
next
  assume z: "zero_vector u"
  then have n0: "norm_sq u = 0" by (simp add: norm_sq_zero_iff)
  show "cosineSimilarity (Some u) b = 0"
  proof (cases b)
    case None
    then show ?thesis by (simp add: cosineSimilarity_def)
  next
    case (Some w)
    show ?thesis
    proof (cases "length u = length w")
      case True
      with n0 Some show ?thesis by (simp add: cosineSimilarity_eq)
    next
      case False
      with Some show ?thesis by (simp add: cosineSimilarity_def)
    qed
  qed
next
  assume z: "zero_vector u"
  then have n0: "norm_sq u = 0" by (simp add: norm_sq_zero_iff)
  show "cosineSimilarity b (Some u) = 0"
  proof (cases b)
    case None
    then show ?thesis by (simp add: cosineSimilarity_def)
  next
    case (Some w)
    show ?thesis
    proof (cases "length w = length u")
      case True
      with n0 Some show ?thesis by (simp add: cosineSimilarity_eq)
    next
      case False
      with Some show ?thesis by (simp add: cosineSimilarity_def)
    qed
  qed
next
  assume "length u \<noteq> length v"
  then show "cosineSimilarity (Some u) (Some v) = 0"
    by (simp add: cosineSimilarity_def)
qed

lemma cosineSimilarity_exact_examples:
  "cosineSimilarity (Some [3, 4]) (Some [3, 4]) = 1 \<and>
   cosineSimilarity (Some [1, 0]) (Some [0, 1]) = 0 \<and>
   cosineSimilarity (Some [0, 0]) (Some [5, 6]) = 0 \<and>
   cosineSimilarity (Some [5, 6]) (Some [0, 0]) = 0 \<and>
   cosineSimilarity (Some [1, 2]) (Some [1, 2, 3]) = 0"
  using cosineSimilarity_exact [of "[3, 4]" "[3, 4]" "Some [5, 6]"]
    cosineSimilarity_exact [of "[1, 0]" "[0, 1]" "None"]
    cosineSimilarity_exact [of "[0, 0]" "[0, 0]" "Some [5, 6]"]
    cosineSimilarity_exact [of "[1, 2]" "[1, 2, 3]" "None"]
  by (simp add: zero_vector_def dot_product_def)

subsection \<open>Search in fallback mode\<close>

lemma sort_by_score_sorted: "sorted_wrt (\<ge>) (map score (sort_by_score rs))"
proof -
  have "sorted (map (\<lambda>r. - score r) (sort_key (\<lambda>r. - score r) rs))"
    by (rule sorted_sort_key)
  then have "sorted_wrt (\<le>) (map uminus (map score (sort_key (\<lambda>r. - score r) rs)))"
    by (simp add: comp_def)
  then show ?thesis
    by (simp add: sort_by_score_def sorted_wrt_map)
qed

lemma sort_by_score_set: "set (sort_by_score rs) = set rs"
  by (simp add: sort_by_score_def)

lemma sort_by_score_stable:
  "filter (\<lambda>r. score r = s) (sort_by_score rs) = filter (\<lambda>r. score r = s) rs"
proof -
  have "filter (\<lambda>r. - score r = - s) (sort_key (\<lambda>r. - score r) rs) = filter (\<lambda>r. - score r = - s) rs"
    by (rule sort_key_stable)
  then show ?thesis by (simp add: sort_by_score_def)
qed

lemma result_score_to_result: "result_score (to_result r) = score r"
  by (simp add: to_result_def)

lemma sorted_wrt_take: "sorted_wrt R xs \<Longrightarrow> sorted_wrt R (take n xs)"
  by (metis append_take_drop_id sorted_wrt_append)

text \<open>
  Claim C1. In fallback mode a search returns a list of results, whatever the stored
  points, the query, the limit \<open>k\<close> and the threshold \<open>t\<close>: every returned score is at
  least \<open>t\<close>, there are at most \<open>k\<close> results, the scores do not increase along the list,
  and the results of any one score are the first stored points of that score, in the order
  of their insertion.
\<close>

theorem searchSimilar_fallback:
  assumes "fallback q"
  shows "\<exists>rs. searchSimilar client queryEmbedding k t q = Inr rs \<and>
           (\<forall>r \<in> set rs. t \<le> result_score r) \<and>
           length rs \<le> k \<and>
           sorted_wrt (\<ge>) (map result_score rs) \<and>
           (\<forall>s. prefix (filter (\<lambda>r. result_score r = s) rs)
                  (filter (\<lambda>r. result_score r = s)
                     (map (\<lambda>p. to_result (score_point queryEmbedding p)) (memoryStore q))))"
proof -
  define M where "M = map (score_point queryEmbedding) (memoryStore q)"
  define F where "F = filter (\<lambda>r. t \<le> score r) M"
  define L where "L = take k (sort_by_score F)"
  have res: "searchSimilar client queryEmbedding k t q = Inr (map to_result L)"
    using assms by (simp add: searchSimilar_def L_def F_def M_def)
  have setL: "set L \<subseteq> set F"
    using set_take_subset [of k "sort_by_score F"] by (simp add: L_def sort_by_score_set)
  have thr: "\<forall>r \<in> set (map to_result L). t \<le> result_score r"
    using setL by (auto simp: F_def result_score_to_result)
  have len: "length (map to_result L) \<le> k"
    by (simp add: L_def)
  have scores: "map result_score (map to_result L) = map score L"
    by (simp add: comp_def result_score_to_result)
  have "sorted_wrt (\<ge>) (take k (map score (sort_by_score F)))"
    by (rule sorted_wrt_take) (rule sort_by_score_sorted)
  then have "sorted_wrt (\<ge>) (map score L)"
    by (simp only: L_def take_map)
  then have srt: "sorted_wrt (\<ge>) (map result_score (map to_result L))"
    by (simp only: scores)
  have ties: "prefix (filter (\<lambda>r. result_score r = s) (map to_result L))
                (filter (\<lambda>r. result_score r = s)
                   (map (\<lambda>p. to_result (score_point queryEmbedding p)) (memoryStore q)))" for s
  proof -
    have "prefix (filter (\<lambda>r. score r = s) L) (filter (\<lambda>r. score r = s) (sort_by_score F))"
      unfolding L_def by (rule filter_mono_prefix) (rule take_is_prefix)
    also have "filter (\<lambda>r. score r = s) (sort_by_score F) = filter (\<lambda>r. score r = s) F"
      by (rule sort_by_score_stable)
    also have "\<dots> = (if t \<le> s then filter (\<lambda>r. score r = s) M else [])"
      by (auto simp: F_def intro: filter_cong)
    finally have "prefix (filter (\<lambda>r. score r = s) L) (filter (\<lambda>r. score r = s) M)"
      by (simp split: if_splits)
    then have "prefix (map to_result (filter (\<lambda>r. score r = s) L))
                 (map to_result (filter (\<lambda>r. score r = s) M))"
      by (rule map_mono_prefix)
    then show ?thesis
      by (simp add: filter_map comp_def result_score_to_result M_def)
  qed
  from res thr len srt ties show ?thesis by blast
qed

theorem searchSimilar_fallback_witness:
  "fallback example_store \<and>
   (\<exists>rs. searchSimilar example_client (Some [1, 0]) 2 (1 / 2) example_store = Inr rs \<and>
      (\<forall>r \<in> set rs. 1 / 2 \<le> result_score r) \<and>
      length rs \<le> 2 \<and>
      sorted_wrt (\<ge>) (map result_score rs) \<and>
      (\<forall>s. prefix (filter (\<lambda>r. result_score r = s) rs)
             (filter (\<lambda>r. result_score r = s)
                (map (\<lambda>p. to_result (score_point (Some [1, 0]) p)) (memoryStore example_store)))))"
  using searchSimilar_fallback [of example_store example_client "Some [1, 0]" 2 "1 / 2"]
  by (simp add: example_store_def)

lemma searchSimilar_example:
  "map_sum id (map result_id) (searchSimilar example_client (Some [1, 0]) 2 (1 / 2) example_store)
     = Inr [js ''b'', js ''c'']"
  by (simp add: searchSimilar_def example_store_def score_point_def cosineSimilarity_def
      sort_by_score_def to_result_def js_def)

subsection \<open>Upsert in fallback mode\<close>

text \<open>
  Claim C3. In fallback mode, storing a document and then a second document of the same
  id leaves exactly one point of that id in the memory store, whatever the store held
  before; the point carries the vector and the payload of the second document.
\<close>

theorem storeDocument_twice:
  assumes "fallback q" and "doc_id d2 = doc_id d1"
  shows "\<exists>q1 q2. storeDocument c1 t1 d1 q = Inr q1 \<and> storeDocument c2 t2 d2 q1 = Inr q2 \<and>
           filter (\<lambda>p. point_id p = doc_id d1) (memoryStore q2) =
             [\<lparr> point_id = doc_id d1,
                vector = embedding d2,
                payload = \<lparr> title = doc_title d2, content = doc_content d2, url = doc_url d2,
                            publishedAt = doc_publishedAt d2, source = doc_source d2,
                            summary = (case doc_summary d2 of None \<Rightarrow> [] | Some s \<Rightarrow> s),
                            createdAt = t2 \<rparr> \<rparr>]"
  using assms by (simp add: storeDocument_def make_point_def Let_def)

theorem storeDocument_twice_witness:
  "fallback example_store \<and> doc_id (example_doc [7]) = doc_id (example_doc [1]) \<and>
   (\<exists>q1 q2. storeDocument example_client 10 (example_doc [1]) example_store = Inr q1 \<and>
      storeDocument example_client 20 (example_doc [7]) q1 = Inr q2 \<and>
      filter (\<lambda>p. point_id p = js ''a'') (memoryStore q2) =
        [\<lparr> point_id = js ''a'', vector = Some [7],
           payload = \<lparr> title = Some (js ''t''), content = None, url = None, publishedAt = None,
                       source = None, summary = [], createdAt = 20 \<rparr> \<rparr>])"
  using storeDocument_twice [of example_store "example_doc [7]" "example_doc [1]"
      example_client 10 example_client 20]
  by (simp add: example_store_def example_doc_def)

text \<open>
  Claim C4. A batch that holds the same id twice is stored with both points: the batch
  upsert removes the stored points whose id is in the batch and then appends the whole
  batch, so that after it the id \<^verbatim>\<open>a\<close> appears twice in the memory store, once with each
  vector.
\<close>

theorem storeDocuments_duplicate_in_batch:
  "storeDocuments example_client 10 [example_doc [1], example_doc [7]]
     \<lparr> fallback = True, memoryStore = [] \<rparr>
     = Inr \<lparr> fallback = True,
             memoryStore = [make_point 10 (example_doc [1]), make_point 10 (example_doc [7])] \<rparr> \<and>
   point_id (make_point 10 (example_doc [1])) = js ''a'' \<and>
   point_id (make_point 10 (example_doc [7])) = js ''a'' \<and>
   vector (make_point 10 (example_doc [1])) = Some [1] \<and>
   vector (make_point 10 (example_doc [7])) = Some [7]"
  by (simp add: storeDocuments_def make_point_def example_doc_def Let_def)

text \<open>
  When the ids of the batch are distinct, the batch upsert keeps the ids of the memory
  store distinct.
\<close>

lemma point_id_make_point: "point_id (make_point now d) = doc_id d"
  by (simp add: make_point_def)

lemma storeDocuments_distinct:
  assumes "fallback q" and "distinct (map point_id (memoryStore q))"
    and "distinct (map doc_id ds)"
  shows "\<exists>q'. storeDocuments client now ds q = Inr q' \<and> distinct (map point_id (memoryStore q'))"
proof -
  define ids where "ids = set (map point_id (map (make_point now) ds))"
  have ids_eq: "map point_id (map (make_point now) ds) = map doc_id ds"
    by (simp add: comp_def point_id_make_point)
  have new: "distinct (map point_id (map (make_point now) ds))"
    using assms(3) by (simp only: ids_eq)
  have kept: "distinct (map point_id (filter (\<lambda>x. point_id x \<notin> ids) (memoryStore q)))"
    using assms(2) by (rule distinct_map_filter)
  have disj: "set (map point_id (filter (\<lambda>x. point_id x \<notin> ids) (memoryStore q))) \<inter> ids = {}"
    by auto
  have res: "storeDocuments client now ds q =
      Inr (q\<lparr>memoryStore := filter (\<lambda>x. point_id x \<notin> ids) (memoryStore q) @ map (make_point now) ds\<rparr>)"
    using assms(1) unfolding storeDocuments_def Let_def ids_def by simp
  have "distinct (map point_id (filter (\<lambda>x. point_id x \<notin> ids) (memoryStore q) @ map (make_point now) ds))"
    using kept disj new unfolding map_append distinct_append ids_def by blast
  with res show ?thesis by simp
qed

subsection \<open>Counting\<close>

text \<open>
  Claim C10. \<^verbatim>\<open>countDocuments\<close> always returns a number and never an error. In fallback
  mode the number is the length of the memory store; when the collection-info query fails
  it is 0; and it is not negative, provided the networked backend does not report a
  negative count.
\<close>

theorem countDocuments_total:
  "(\<exists>n. countDocuments client q = Inr n) \<and>
   (fallback q \<longrightarrow> countDocuments client q = Inr (int (length (memoryStore q)))) \<and>
   (\<forall>e. getCollectionInfo client q = Inl e \<longrightarrow> countDocuments client q = Inr 0) \<and>
   ((\<forall>info n. getCollection client = Inr info \<and> points_count info = Some n \<longrightarrow> 0 \<le> n) \<longrightarrow>
      (\<forall>n. countDocuments client q = Inr n \<longrightarrow> 0 \<le> n))"
  by (auto simp: countDocuments_def getCollectionInfo_def split: sum.splits option.splits)

theorem countDocuments_total_witness:
  "fallback example_store \<and> countDocuments example_client example_store = Inr 4 \<and>
   getCollectionInfo example_client (example_store\<lparr>fallback := False\<rparr>)
     = Inl (Error (js ''unreachable'')) \<and>
   countDocuments example_client (example_store\<lparr>fallback := False\<rparr>) = Inr 0 \<and>
   points_count (projr (getCollection reporting_client)) = Some 7 \<and>
   countDocuments reporting_client (example_store\<lparr>fallback := False\<rparr>) = Inr 7 \<and>
   (0 :: int) \<le> 7"
proof -
  have a: "fallback example_store"
    by (simp add: example_store_def)
  have b: "getCollectionInfo example_client (example_store\<lparr>fallback := False\<rparr>)
             = Inl (Error (js ''unreachable''))"
    by (simp add: getCollectionInfo_def example_client_def)
  have c: "\<forall>info n. getCollection reporting_client = Inr info \<and> points_count info = Some n \<longrightarrow> 0 \<le> n"
    by (auto simp: reporting_client_def)
  have d: "length (memoryStore example_store) = 4"
    by (simp add: example_store_def)
  have e: "points_count (projr (getCollection reporting_client)) = Some 7"
    by (simp add: reporting_client_def)
  have f: "countDocuments reporting_client (example_store\<lparr>fallback := False\<rparr>) = Inr 7"
    by (simp add: countDocuments_def getCollectionInfo_def reporting_client_def)
  from a d have "countDocuments example_client example_store = Inr 4"
    using countDocuments_total [of example_client example_store] by simp
  moreover from b have "countDocuments example_client (example_store\<lparr>fallback := False\<rparr>) = Inr 0"
    using countDocuments_total [of example_client "example_store\<lparr>fallback := False\<rparr>"] by blast
  moreover from c f have "(0 :: int) \<le> 7"
    using countDocuments_total [of reporting_client "example_store\<lparr>fallback := False\<rparr>"] by blast
  ultimately show ?thesis using a b e f by blast
qed

section \<open>Properties of rounding\<close>


lemma round_half_even_unique:
  assumes "\<bar>x - of_int k\<bar> < 1 / 2"
  shows "round_half_even x = k"
proof (cases "of_int k \<le> x")
  case True
  then have "\<lfloor>x\<rfloor> = k" using assms by (intro floor_unique) auto
  then show ?thesis using assms True by (auto simp: round_half_even_def Let_def)
next
  case False
  then have "\<lfloor>x\<rfloor> = k - 1" using assms by (intro floor_unique) auto
  then show ?thesis using assms False by (auto simp: round_half_even_def Let_def)
qed

lemma round_half_even_of_int: "round_half_even (of_int k) = k"
  by (rule round_half_even_unique) simp

lemma round_half_even_nonneg: "0 \<le> x \<Longrightarrow> 0 \<le> round_half_even x"
  by (auto simp: round_half_even_def Let_def)




lemma spacing_exponent_ge: "- 1074 \<le> spacing_exponent x"
  by (simp add: spacing_exponent_def)


lemma nearest_double_nonneg: "0 \<le> x \<Longrightarrow> 0 \<le> nearest_double x"
  by (simp add: nearest_double_def round_half_even_nonneg)




lemma nearest_double_grid:
  assumes "0 \<le> x"
  shows "nearest_double x = 0 \<or> 2 powr (- 1074) \<le> nearest_double x"
proof -
  define q :: real where "q = 2 powr of_int (spacing_exponent x)"
  define k where "k = round_half_even (x / q)"
  have "(2::real) powr of_int (- 1074) \<le> 2 powr of_int (spacing_exponent x)"
    using spacing_exponent_ge [of x] by (intro powr_mono) auto
  then have q: "2 powr (- 1074) \<le> q" by (simp add: q_def)
  have q0: "0 < q" by (simp add: q_def)
  have n: "nearest_double x = of_int k * q" by (simp add: nearest_double_def q_def k_def)
  have "0 \<le> k" unfolding k_def using assms q0 by (intro round_half_even_nonneg) simp
  then consider "k = 0" | "1 \<le> k" by linarith
  then show ?thesis
  proof cases
    case 1
    then show ?thesis by (simp add: n)
  next
    case 2
    then have "1 * q \<le> of_int k * q" using q0 by (intro mult_right_mono) auto
    then show ?thesis using q n by simp
  qed
qed











section \<open>Properties of the similarity in double precision\<close>




lemma nonnegative_round_to_double:
  assumes "0 \<le> z"
  shows "nonnegative_number (round_to_double z)"
proof -
  have "0 \<le> nearest_double z" using assms by (rule nearest_double_nonneg)
  moreover have "(0::real) < 2 ^ 1024" by simp
  ultimately have "\<not> nearest_double z \<le> - (2 ^ 1024)" by linarith
  then show ?thesis
    using nearest_double_grid [OF assms] by (simp add: round_to_double_def Let_def)
qed



lemma nonnegative_square: "nonnegative_number (times_number (Finite x) (Finite x))"
  by (simp add: nonnegative_round_to_double)

































section \<open>Properties of the embedding provider\<close>

subsection \<open>Text preparation\<close>

lemma js_dots: "js ''...'' = [46, 46, 46]"
  by (simp add: js_def)

lemma filter_not_dropWhile: "filter (\<lambda>c. \<not> P c) (dropWhile P cs) = filter (\<lambda>c. \<not> P c) cs"
  by (induction cs) simp_all

lemma replace_runs_keeps:
  "\<forall>c \<in> set r. P c \<Longrightarrow> filter (\<lambda>c. \<not> P c) (replace_runs P r s) = filter (\<lambda>c. \<not> P c) s"
proof (induction P r s rule: replace_runs.induct)
  case (1 P r)
  show ?case by simp
next
  case (2 P r c cs)
  show ?case
  proof (cases "P c")
    case True
    have "filter (\<lambda>c. \<not> P c) r = []" using "2.prems" by (simp add: filter_empty_conv)
    with True 2 show ?thesis by (simp add: filter_not_dropWhile)
  next
    case False
    with 2 show ?thesis by simp
  qed
qed

lemma replace_runs_set:
  "x \<in> set (replace_runs P r s) \<Longrightarrow> x \<in> set r \<or> (x \<in> set s \<and> \<not> P x)"
proof (induction P r s rule: replace_runs.induct)
  case (1 P r)
  then show ?case by simp
next
  case (2 P r c cs)
  then show ?case
    by (cases "P c") (auto dest: set_dropWhileD)
qed

lemma replace_runs_hd:
  "s \<noteq> [] \<Longrightarrow> \<not> P (hd s) \<Longrightarrow> replace_runs P r s \<noteq> [] \<and> hd (replace_runs P r s) = hd s"
  by (cases s) simp_all

lemma replace_runs_single:
  "P x \<Longrightarrow> successively (\<lambda>a b. \<not> (P a \<and> P b)) (replace_runs P [x] s)"
proof (induction P "[x]" s rule: replace_runs.induct)
  case (1 P)
  show ?case by simp
next
  case (2 P c cs)
  show ?case
  proof (cases "P c")
    case True
    note Pc = this
    show ?thesis
    proof (cases "dropWhile P cs")
      case Nil
      then have "replace_runs P [x] (dropWhile P cs) = []" by (simp only: replace_runs.simps)
      with Pc show ?thesis by (simp del: dropWhile_eq_Nil_conv)
    next
      case (Cons d ds)
      then have "\<not> P d" using hd_dropWhile [of P cs] by simp
      moreover have "successively (\<lambda>a b. \<not> (P a \<and> P b)) (replace_runs P [x] (d # ds))"
        using 2 Pc Cons by simp
      ultimately show ?thesis using Pc Cons by (simp add: successively_Cons)
    qed
  next
    case False
    with 2 show ?thesis by (auto simp: successively_Cons replace_runs_hd)
  qed
qed

lemma replace_runs_none: "\<forall>c \<in> set s. \<not> P c \<Longrightarrow> replace_runs P r s = s"
  by (induction s) simp_all

lemma is_whitespace_simps: "is_whitespace 32" "is_whitespace 10" "\<not> is_whitespace 7"
  by (simp_all add: is_whitespace_def)

lemma newline_pass:
  "replace_runs (\<lambda>c. c = 10) [32] (replace_runs is_whitespace [32] s) = replace_runs is_whitespace [32] s"
proof (rule replace_runs_none, rule ballI)
  fix c assume "c \<in> set (replace_runs is_whitespace [32] s)"
  then have "c = 32 \<or> \<not> is_whitespace c" using replace_runs_set [of c is_whitespace "[32]" s] by auto
  then show "c \<noteq> 10" using is_whitespace_simps by auto
qed

lemma clean_text_eq: "clean_text s = trim (replace_runs is_whitespace [32] s)"
  by (simp add: clean_text_def newline_pass)

lemma trim_decompose:
  "\<exists>pre suf. xs = pre @ trim xs @ suf \<and> list_all is_whitespace pre \<and> list_all is_whitespace suf"
proof -
  define ys where "ys = dropWhile is_whitespace xs"
  define zs where "zs = dropWhile is_whitespace (rev ys)"
  define ts where "ts = takeWhile is_whitespace (rev ys)"
  have 1: "xs = takeWhile is_whitespace xs @ ys" by (simp add: ys_def)
  have t: "trim xs = rev zs" by (simp add: trim_def ys_def zs_def)
  have "rev ys = ts @ zs" by (simp add: zs_def ts_def)
  then have "rev (rev ys) = rev (ts @ zs)" by (rule arg_cong)
  then have 2: "ys = rev zs @ rev ts" by simp
  have a: "list_all is_whitespace (takeWhile is_whitespace xs)"
    by (auto simp: list_all_iff dest: set_takeWhileD)
  have b: "list_all is_whitespace (rev ts)"
    by (auto simp: list_all_iff ts_def dest: set_takeWhileD)
  from 1 2 t have "xs = takeWhile is_whitespace xs @ trim xs @ rev ts"
    by simp
  with a b show ?thesis by blast
qed

lemma trim_ends: "trim xs = [] \<or> (\<not> is_whitespace (hd (trim xs)) \<and> \<not> is_whitespace (last (trim xs)))"
proof (cases "trim xs = []")
  case True
  then show ?thesis by simp
next
  case False
  define ys where "ys = dropWhile is_whitespace xs"
  define zs where "zs = dropWhile is_whitespace (rev ys)"
  have t: "trim xs = rev zs" by (simp add: trim_def ys_def zs_def)
  with False have zs: "zs \<noteq> []" by simp
  then have "\<not> is_whitespace (hd zs)" unfolding zs_def by (rule hd_dropWhile)
  then have last: "\<not> is_whitespace (last (trim xs))" using zs t by (simp add: last_rev)
  have "rev ys = takeWhile is_whitespace (rev ys) @ zs" by (simp add: zs_def)
  then have "rev (rev ys) = rev (takeWhile is_whitespace (rev ys) @ zs)" by simp
  then have ys: "ys = rev zs @ rev (takeWhile is_whitespace (rev ys))" by simp
  with zs have "ys \<noteq> []" by auto
  then have "\<not> is_whitespace (hd ys)" unfolding ys_def by (rule hd_dropWhile)
  moreover have "hd ys = hd (rev zs)" using ys zs by (metis hd_append2 rev_is_Nil_conv)
  ultimately have "\<not> is_whitespace (hd (trim xs))" using t by simp
  with last show ?thesis by simp
qed


lemma clean_text_keeps:
  "filter (\<lambda>x. \<not> is_whitespace x) (clean_text s) = filter (\<lambda>x. \<not> is_whitespace x) s"
proof -
  define R where "R = replace_runs is_whitespace [32] s"
  obtain pre suf where d: "R = pre @ trim R @ suf"
    and pre: "list_all is_whitespace pre" and suf: "list_all is_whitespace suf"
    using trim_decompose [of R] by blast
  have e: "filter (\<lambda>x. \<not> is_whitespace x) pre = []" "filter (\<lambda>x. \<not> is_whitespace x) suf = []"
    using pre suf by (simp_all add: filter_empty_conv list_all_iff)
  have "filter (\<lambda>x. \<not> is_whitespace x) R = filter (\<lambda>x. \<not> is_whitespace x) (pre @ trim R @ suf)"
    using d by simp
  then have "filter (\<lambda>x. \<not> is_whitespace x) R = filter (\<lambda>x. \<not> is_whitespace x) (trim R)"
    using e by simp
  moreover have "filter (\<lambda>x. \<not> is_whitespace x) R = filter (\<lambda>x. \<not> is_whitespace x) s"
    unfolding R_def by (rule replace_runs_keeps) (simp add: is_whitespace_simps)
  ultimately show ?thesis by (simp add: clean_text_eq R_def)
qed

lemma clean_text_spaces: "x \<in> set (clean_text s) \<Longrightarrow> is_whitespace x \<Longrightarrow> x = 32"
proof -
  assume x: "x \<in> set (clean_text s)" and ws: "is_whitespace x"
  define R where "R = replace_runs is_whitespace [32] s"
  obtain pre suf where d: "R = pre @ trim R @ suf"
    using trim_decompose [of R] by blast
  have "x \<in> set (trim R)" using x by (simp add: clean_text_eq R_def)
  then have "x \<in> set R" using d by (metis Un_iff set_append)
  then show "x = 32" using ws replace_runs_set [of x is_whitespace "[32]" s] by (auto simp: R_def)
qed

lemma clean_text_single:
  "successively (\<lambda>a b. \<not> (is_whitespace a \<and> is_whitespace b)) (clean_text s)"
proof -
  define R where "R = replace_runs is_whitespace [32] s"
  obtain pre suf where d: "R = pre @ trim R @ suf"
    using trim_decompose [of R] by blast
  have "successively (\<lambda>a b. \<not> (is_whitespace a \<and> is_whitespace b)) R"
    unfolding R_def by (rule replace_runs_single) (simp add: is_whitespace_simps)
  then have "successively (\<lambda>a b. \<not> (is_whitespace a \<and> is_whitespace b)) (pre @ trim R @ suf)"
    using d by simp
  then have "successively (\<lambda>a b. \<not> (is_whitespace a \<and> is_whitespace b)) (trim R)"
    by (simp add: successively_append_iff)
  then show ?thesis by (simp add: clean_text_eq R_def)
qed

lemma clean_text_ends:
  "clean_text s = [] \<or> (\<not> is_whitespace (hd (clean_text s)) \<and> \<not> is_whitespace (last (clean_text s)))"
  unfolding clean_text_eq by (rule trim_ends)

lemma split_ws_all_whitespace:
  "list_all is_whitespace cs \<Longrightarrow> split_ws w cs = (if w = [] then [] else [w])"
  by (induction cs arbitrary: w) simp_all

lemma split_ws_append_whitespace:
  "list_all is_whitespace suf \<Longrightarrow> split_ws w (xs @ suf) = split_ws w xs"
  by (induction xs arbitrary: w) (simp_all add: split_ws_all_whitespace)

lemma split_ws_prepend_whitespace:
  "list_all is_whitespace pre \<Longrightarrow> split_ws [] (pre @ xs) = split_ws [] xs"
  by (induction pre) simp_all

lemma split_ws_dropWhile: "split_ws [] (dropWhile is_whitespace cs) = split_ws [] cs"
  by (induction cs) simp_all

lemma split_ws_replace_runs:
  "split_ws w (replace_runs is_whitespace [32] s) = split_ws w s"
proof (induction "is_whitespace" "[32::nat]" s arbitrary: w rule: replace_runs.induct)
  case 1
  show ?case by simp
next
  case (2 c cs)
  show ?case
  proof (cases "is_whitespace c")
    case True
    with 2 show ?thesis by (simp add: is_whitespace_simps split_ws_dropWhile)
  next
    case False
    with 2 show ?thesis by simp
  qed
qed

lemma words_of_clean_text: "words_of (clean_text s) = words_of s"
proof -
  define R where "R = replace_runs is_whitespace [32] s"
  obtain pre suf where d: "R = pre @ trim R @ suf"
    and pre: "list_all is_whitespace pre" and suf: "list_all is_whitespace suf"
    using trim_decompose [of R] by blast
  have "split_ws [] R = split_ws [] (pre @ (trim R @ suf))"
    using d by simp
  also have "\<dots> = split_ws [] (trim R @ suf)"
    using pre by (rule split_ws_prepend_whitespace)
  also have "\<dots> = split_ws [] (trim R)"
    using suf by (rule split_ws_append_whitespace)
  finally have "split_ws [] (trim R) = split_ws [] s"
    by (simp add: R_def split_ws_replace_runs)
  then show ?thesis by (simp add: words_of_def clean_text_eq R_def)
qed

lemma join_Cons: "ys \<noteq> [] \<Longrightarrow> join sep (p # ys) = p @ sep @ join sep ys"
  by (cases ys) simp_all

lemma join_split_ws:
  assumes "\<forall>c \<in> set x. is_whitespace c \<longrightarrow> c = 32"
    and "successively (\<lambda>a b. \<not> (is_whitespace a \<and> is_whitespace b)) x"
    and "x = [] \<or> \<not> is_whitespace (last x)"
    and "w = [] \<longrightarrow> x = [] \<or> \<not> is_whitespace (hd x)"
  shows "join [32] (split_ws w x) = w @ x"
  using assms
proof (induction x arbitrary: w)
  case Nil
  show ?case by simp
next
  case (Cons c cs)
  show ?case
  proof (cases "is_whitespace c")
    case True
    then have c: "c = 32" using Cons.prems(1) by simp
    from True Cons.prems(4) have w: "w \<noteq> []" by auto
    from True Cons.prems(3) have cs: "cs \<noteq> []" by auto
    from True Cons.prems(2) cs have hd: "\<not> is_whitespace (hd cs)"
      by (cases cs) auto
    have "join [32] (split_ws [] cs) = [] @ cs"
    proof (rule Cons.IH)
      show "\<forall>c \<in> set cs. is_whitespace c \<longrightarrow> c = 32" using Cons.prems(1) by simp
      show "successively (\<lambda>a b. \<not> (is_whitespace a \<and> is_whitespace b)) cs"
        using Cons.prems(2) by (cases cs) auto
      show "cs = [] \<or> \<not> is_whitespace (last cs)" using Cons.prems(3) cs by simp
      show "[] = [] \<longrightarrow> cs = [] \<or> \<not> is_whitespace (hd cs)" using hd by simp
    qed
    then have j: "join [32] (split_ws [] cs) = cs" by simp
    with cs have ne: "split_ws [] cs \<noteq> []" by auto
    have "split_ws w (c # cs) = w # split_ws [] cs" using True w by simp
    then have "join [32] (split_ws w (c # cs)) = w @ [32] @ join [32] (split_ws [] cs)"
      using ne by (simp add: join_Cons)
    with j c show ?thesis by simp
  next
    case False
    have "join [32] (split_ws (w @ [c]) cs) = (w @ [c]) @ cs"
    proof (rule Cons.IH)
      show "\<forall>c \<in> set cs. is_whitespace c \<longrightarrow> c = 32" using Cons.prems(1) by simp
      show "successively (\<lambda>a b. \<not> (is_whitespace a \<and> is_whitespace b)) cs"
        using Cons.prems(2) by (cases cs) auto
      show "cs = [] \<or> \<not> is_whitespace (last cs)" using Cons.prems(3) by (cases cs) auto
      show "w @ [c] = [] \<longrightarrow> cs = [] \<or> \<not> is_whitespace (hd cs)" by simp
    qed
    with False show ?thesis by simp
  qed
qed

lemma clean_text_words: "clean_text s = join [32] (words_of s)"
proof -
  have "join [32] (split_ws [] (clean_text s)) = [] @ clean_text s"
  proof (rule join_split_ws)
    show "\<forall>c \<in> set (clean_text s). is_whitespace c \<longrightarrow> c = 32"
      using clean_text_spaces by blast
    show "successively (\<lambda>a b. \<not> (is_whitespace a \<and> is_whitespace b)) (clean_text s)"
      by (rule clean_text_single)
    show "clean_text s = [] \<or> \<not> is_whitespace (last (clean_text s))"
      using clean_text_ends [of s] by blast
    show "[] = [] \<longrightarrow> clean_text s = [] \<or> \<not> is_whitespace (hd (clean_text s))"
      using clean_text_ends [of s] by blast
  qed
  then have "clean_text s = join [32] (words_of (clean_text s))"
    by (simp add: words_of_def)
  then show ?thesis by (simp only: words_of_clean_text)
qed

lemma concat_split_ws:
  "concat (split_ws w s) = w @ filter (\<lambda>c. \<not> is_whitespace c) s"
  by (induction s arbitrary: w) simp_all

lemma split_ws_words:
  "\<forall>c \<in> set w. \<not> is_whitespace c \<Longrightarrow> u \<in> set (split_ws w s) \<Longrightarrow>
   u \<noteq> [] \<and> (\<forall>c \<in> set u. \<not> is_whitespace c)"
proof (induction s arbitrary: w)
  case Nil
  then show ?case by (auto split: if_splits)
next
  case (Cons c cs)
  show ?case
  proof (cases "is_whitespace c")
    case True
    with Cons.prems have "u = w \<and> w \<noteq> [] \<or> u \<in> set (split_ws [] cs)"
      by (auto split: if_splits)
    then show ?thesis
    proof
      assume "u = w \<and> w \<noteq> []"
      with Cons.prems(1) show ?thesis by simp
    next
      assume "u \<in> set (split_ws [] cs)"
      with Cons.IH [of "[]"] show ?thesis by simp
    qed
  next
    case False
    with Cons.prems have "u \<in> set (split_ws (w @ [c]) cs)" by simp
    moreover have "\<forall>x \<in> set (w @ [c]). \<not> is_whitespace x" using Cons.prems(1) False by simp
    ultimately show ?thesis using Cons.IH [of "w @ [c]"] by blast
  qed
qed

text \<open>
  Claim C9. For every argument, \<^verbatim>\<open>prepareTextForEmbedding\<close> returns the empty string
  when the argument is not a string or is the empty string. For a non-empty string the
  cleaned text is the words of the string joined by single spaces: every run of white
  space between two words has become one space where it stood, the white space before
  the first word and after the last is gone, and every character that is not white
  space, control characters and other non-printable characters included, is kept,
  unchanged and in order. The result is the cleaned text when that is at most the
  maximum length long (8192 when none is given), and otherwise its first maximum-length
  characters followed by three dots.
\<close>

theorem prepareTextForEmbedding_spec:
  "((\<forall>s. text \<noteq> String s) \<or> text = String [] \<longrightarrow> prepareTextForEmbedding text maxLength = []) \<and>
   (text = String s \<and> s \<noteq> [] \<longrightarrow>
      prepareTextForEmbedding text maxLength =
        (if int (length (join [32] (words_of s))) \<le> (case maxLength of None \<Rightarrow> 8192 | Some n \<Rightarrow> n)
         then join [32] (words_of s)
         else take (nat (case maxLength of None \<Rightarrow> 8192 | Some n \<Rightarrow> n)) (join [32] (words_of s))
                @ [46, 46, 46]) \<and>
      clean_text s = join [32] (words_of s) \<and>
      concat (words_of s) = filter (\<lambda>x. \<not> is_whitespace x) s \<and>
      (\<forall>u \<in> set (words_of s). u \<noteq> [] \<and> (\<forall>x \<in> set u. \<not> is_whitespace x)) \<and>
      filter (\<lambda>x. \<not> is_whitespace x) (clean_text s) = filter (\<lambda>x. \<not> is_whitespace x) s \<and>
      (\<forall>x \<in> set (clean_text s). is_whitespace x \<longrightarrow> x = 32) \<and>
      successively (\<lambda>a b. \<not> (is_whitespace a \<and> is_whitespace b)) (clean_text s) \<and>
      (clean_text s = [] \<or>
         \<not> is_whitespace (hd (clean_text s)) \<and> \<not> is_whitespace (last (clean_text s))))"
proof (intro conjI impI)
  assume "(\<forall>s. text \<noteq> String s) \<or> text = String []"
  then show "prepareTextForEmbedding text maxLength = []"
    by (cases "text") (auto simp: prepareTextForEmbedding_def)
next
  assume "text = String s \<and> s \<noteq> []"
  then have "prepareTextForEmbedding text maxLength =
        (if int (length (clean_text s)) \<le> (case maxLength of None \<Rightarrow> 8192 | Some n \<Rightarrow> n)
         then clean_text s
         else take (nat (case maxLength of None \<Rightarrow> 8192 | Some n \<Rightarrow> n)) (clean_text s)
                @ [46, 46, 46])"
    by (simp add: prepareTextForEmbedding_def Let_def js_dots not_le [symmetric])
  then show "prepareTextForEmbedding text maxLength =
        (if int (length (join [32] (words_of s))) \<le> (case maxLength of None \<Rightarrow> 8192 | Some n \<Rightarrow> n)
         then join [32] (words_of s)
         else take (nat (case maxLength of None \<Rightarrow> 8192 | Some n \<Rightarrow> n)) (join [32] (words_of s))
                @ [46, 46, 46])"
    by (simp only: clean_text_words)
next
  show "clean_text s = join [32] (words_of s)"
    by (rule clean_text_words)
next
  show "concat (words_of s) = filter (\<lambda>x. \<not> is_whitespace x) s"
    by (simp add: words_of_def concat_split_ws)
next
  show "\<forall>u \<in> set (words_of s). u \<noteq> [] \<and> (\<forall>x \<in> set u. \<not> is_whitespace x)"
    using split_ws_words [of "[]" _ s] by (simp add: words_of_def)
next
  show "filter (\<lambda>x. \<not> is_whitespace x) (clean_text s) = filter (\<lambda>x. \<not> is_whitespace x) s"
    by (rule clean_text_keeps)
next
  show "\<forall>x \<in> set (clean_text s). is_whitespace x \<longrightarrow> x = 32"
    using clean_text_spaces by blast
next
  show "successively (\<lambda>a b. \<not> (is_whitespace a \<and> is_whitespace b)) (clean_text s)"
    by (rule clean_text_single)
next
  show "clean_text s = [] \<or>
         \<not> is_whitespace (hd (clean_text s)) \<and> \<not> is_whitespace (last (clean_text s))"
    by (rule clean_text_ends)
qed

lemma ws_cases:
  "is_whitespace 32" "is_whitespace 10" "is_whitespace 9" "\<not> is_whitespace 97"
  "\<not> is_whitespace 98" "\<not> is_whitespace 99" "\<not> is_whitespace 7"
  by (simp_all add: is_whitespace_def)

lemma clean_text_example: "clean_text [32, 97, 10, 10, 9, 98, 7, 99, 32] = [97, 32, 98, 7, 99]"
  by (simp add: clean_text_eq trim_def ws_cases)


text \<open>
  A string with the control character U+0007 between two letters comes back unchanged:
  characters that are not printable and not white space are not stripped.
\<close>

theorem prepareTextForEmbedding_keeps_control_character:
  "prepareTextForEmbedding (String [97, 7, 98]) None = [97, 7, 98]"
  by (simp add: prepareTextForEmbedding_def clean_text_eq trim_def ws_cases)

lemma words_of_example: "words_of [32, 97, 10, 10, 9, 98, 7, 99, 32] = [[97], [98, 7, 99]]"
  by (simp add: words_of_def ws_cases)

theorem prepareTextForEmbedding_spec_witness:
  "prepareTextForEmbedding Undefined None = [] \<and>
   prepareTextForEmbedding (String []) (Some 3) = [] \<and>
   prepareTextForEmbedding (String [32, 97, 10, 10, 9, 98, 7, 99, 32]) None = [97, 32, 98, 7, 99] \<and>
   prepareTextForEmbedding (String [32, 97, 10, 10, 9, 98, 7, 99, 32]) (Some 3)
     = [97, 32, 98, 46, 46, 46]"
proof -
  have a: "prepareTextForEmbedding Undefined None = []"
    using prepareTextForEmbedding_spec [of Undefined None] by simp
  have b: "prepareTextForEmbedding (String []) (Some 3) = []"
    using prepareTextForEmbedding_spec [of "String []" "Some 3"] by simp
  have c: "prepareTextForEmbedding (String [32, 97, 10, 10, 9, 98, 7, 99, 32]) None
             = [97, 32, 98, 7, 99]"
    using prepareTextForEmbedding_spec [of "String [32, 97, 10, 10, 9, 98, 7, 99, 32]"
        None "[32, 97, 10, 10, 9, 98, 7, 99, 32]"]
    by (simp add: words_of_example)
  have d: "prepareTextForEmbedding (String [32, 97, 10, 10, 9, 98, 7, 99, 32]) (Some 3)
             = [97, 32, 98, 46, 46, 46]"
    using prepareTextForEmbedding_spec [of "String [32, 97, 10, 10, 9, 98, 7, 99, 32]"
        "Some 3" "[32, 97, 10, 10, 9, 98, 7, 99, 32]"]
    by (simp add: words_of_example)
  from a b c d show ?thesis by simp
qed

section \<open>Properties of the orchestrator\<close>

subsection \<open>What the provider leaves untouched\<close>

lemma generateEmbeddings_frame:
  "qdrant (snd (generateEmbeddings e texts w)) = qdrant w \<and>
   redis (snd (generateEmbeddings e texts w)) = redis w \<and>
   store_calls (snd (generateEmbeddings e texts w)) = store_calls w \<and>
   provider_calls (snd (generateEmbeddings e texts w)) = provider_calls w \<and>
   redis_commands (snd (generateEmbeddings e texts w)) = redis_commands w"
  by (simp add: generateEmbeddings_def)

lemma generateEmbedding_frame:
  "qdrant (snd (generateEmbedding e query w)) = qdrant w \<and>
   redis (snd (generateEmbedding e query w)) = redis w \<and>
   store_calls (snd (generateEmbedding e query w)) = store_calls w \<and>
   provider_calls (snd (generateEmbedding e query w)) = provider_calls w + 1 \<and>
   redis_commands (snd (generateEmbedding e query w)) = redis_commands w"
proof -
  obtain r w' where g: "generateEmbeddings e [query] (w\<lparr>provider_calls := provider_calls w + 1\<rparr>) = (r, w')"
    by (cases "generateEmbeddings e [query] (w\<lparr>provider_calls := provider_calls w + 1\<rparr>)")
  have "snd (generateEmbedding e query w) = w'"
    using g by (cases r) (simp_all add: generateEmbedding_def)
  moreover have "qdrant w' = qdrant w \<and> redis w' = redis w \<and> store_calls w' = store_calls w
      \<and> provider_calls w' = provider_calls w + 1 \<and> redis_commands w' = redis_commands w"
    using generateEmbeddings_frame [of e "[query]" "w\<lparr>provider_calls := provider_calls w + 1\<rparr>"] g
    by simp
  ultimately show ?thesis by simp
qed

lemma retrieve_world:
  "snd (retrieveRelevantDocuments e query topK scoreThreshold w) = snd (generateEmbedding e query w)"
  by (simp add: retrieveRelevantDocuments_def Let_def
      split: prod.splits sum.splits reply_embedding.splits)

subsection \<open>Retrieval\<close>

text \<open>
  Claim C8. Retrieval writes neither to the vector store nor to the embedding cache:
  for every query, limit and threshold, and whether or not it fails, the state of the
  vector store and the cached embeddings after the call are those before it, and no
  store operation was called. In particular the embedding of the query is not cached.
\<close>

theorem retrieve_read_only:
  "qdrant (snd (retrieveRelevantDocuments e query topK scoreThreshold w)) = qdrant w \<and>
   redis (snd (retrieveRelevantDocuments e query topK scoreThreshold w)) = redis w \<and>
   store_calls (snd (retrieveRelevantDocuments e query topK scoreThreshold w)) = store_calls w"
  by (simp add: retrieve_world generateEmbedding_frame)

text \<open>
  Claim C7. When the provider call fails, retrieval fails with the provider's error,
  unchanged. When the provider returns without a vector (no embedding, or a null one),
  retrieval fails with an error of its own, \<^verbatim>\<open>Failed to generate query embedding\<close>.
  In both cases no list of results is returned.
\<close>

theorem retrieve_embedding_failure:
  "(fst (generateEmbedding e query w) = Inl err \<longrightarrow>
      fst (retrieveRelevantDocuments e query topK scoreThreshold w) = Inl err) \<and>
   (fst (generateEmbedding e query w) = Inr Absent \<longrightarrow>
      fst (retrieveRelevantDocuments e query topK scoreThreshold w)
        = Inl (Error (js ''Failed to generate query embedding''))) \<and>
   (fst (generateEmbedding e query w) = Inr JsonNull \<longrightarrow>
      fst (retrieveRelevantDocuments e query topK scoreThreshold w)
        = Inl (Error (js ''Failed to generate query embedding''))) \<and>
   ((\<forall>v. fst (generateEmbedding e query w) \<noteq> Inr (Vector v)) \<longrightarrow>
      (\<forall>docs. fst (retrieveRelevantDocuments e query topK scoreThreshold w) \<noteq> Inr docs))"
  by (cases "generateEmbedding e query w")
     (auto simp: retrieveRelevantDocuments_def Let_def split: sum.splits reply_embedding.splits)

lemma trim_q: "trim [113] = [113]"
  by (simp add: trim_def is_whitespace_def)

lemma generateEmbedding_unreachable:
  "fst (generateEmbedding unreachable_model_env (String [113]) example_world)
     = Inl (Error (js ''No response received from Jina API - check network connection''))"
  by (simp add: generateEmbedding_def generateEmbeddings_def valid_texts_def trim_q
      unreachable_model_env_def example_env_def js_def)

lemma generateEmbedding_empty_response:
  "fst (generateEmbedding empty_response_env (String [113]) example_world) = Inr Absent"
  by (simp add: generateEmbedding_def generateEmbeddings_def valid_texts_def trim_q
      empty_response_env_def example_env_def js_def)

lemma generateEmbedding_null_response:
  "fst (generateEmbedding null_response_env (String [113]) example_world) = Inr JsonNull"
  by (simp add: generateEmbedding_def generateEmbeddings_def valid_texts_def trim_q
      null_response_env_def example_env_def js_def)

theorem retrieve_embedding_failure_witness:
  "fst (generateEmbedding unreachable_model_env (String [113]) example_world)
     = Inl (Error (js ''No response received from Jina API - check network connection'')) \<and>
   fst (retrieveRelevantDocuments unreachable_model_env (String [113]) None None example_world)
     = Inl (Error (js ''No response received from Jina API - check network connection'')) \<and>
   fst (generateEmbedding empty_response_env (String [113]) example_world) = Inr Absent \<and>
   fst (retrieveRelevantDocuments empty_response_env (String [113]) None None example_world)
     = Inl (Error (js ''Failed to generate query embedding'')) \<and>
   fst (generateEmbedding null_response_env (String [113]) example_world) = Inr JsonNull \<and>
   fst (retrieveRelevantDocuments null_response_env (String [113]) None None example_world)
     = Inl (Error (js ''Failed to generate query embedding'')) \<and>
   (\<forall>v. fst (generateEmbedding empty_response_env (String [113]) example_world) \<noteq> Inr (Vector v)) \<and>
   (\<forall>docs. fst (retrieveRelevantDocuments empty_response_env (String [113]) None None example_world)
      \<noteq> Inr docs)"
proof -
  note a = generateEmbedding_unreachable
  note b = generateEmbedding_empty_response
  note n = generateEmbedding_null_response
  have c: "\<forall>v. fst (generateEmbedding empty_response_env (String [113]) example_world) \<noteq> Inr (Vector v)"
    by (simp add: b)
  have "fst (retrieveRelevantDocuments unreachable_model_env (String [113]) None None example_world)
     = Inl (Error (js ''No response received from Jina API - check network connection''))"
    using retrieve_embedding_failure [of unreachable_model_env "String [113]" example_world
        "Error (js ''No response received from Jina API - check network connection'')" None None] a
    by blast
  moreover have "fst (retrieveRelevantDocuments empty_response_env (String [113]) None None example_world)
     = Inl (Error (js ''Failed to generate query embedding''))"
    using retrieve_embedding_failure [of empty_response_env "String [113]" example_world
        "Error []" None None] b
    by blast
  moreover have "fst (retrieveRelevantDocuments null_response_env (String [113]) None None example_world)
     = Inl (Error (js ''Failed to generate query embedding''))"
    using retrieve_embedding_failure [of null_response_env "String [113]" example_world
        "Error []" None None] n
    by blast
  moreover have "\<forall>docs. fst (retrieveRelevantDocuments empty_response_env (String [113]) None None example_world)
      \<noteq> Inr docs"
    using retrieve_embedding_failure [of empty_response_env "String [113]" example_world
        "Error []" None None] c
    by blast
  ultimately show ?thesis using a b c n by blast
qed

text \<open>
  The provider answers the query \<^verbatim>\<open>q\<close> with no item: it returns normally, without a
  vector and without an error, and retrieval fails with its own error.
\<close>

theorem retrieve_no_vector:
  "fst (generateEmbedding empty_response_env (String [113]) example_world) = Inr Absent \<and>
   fst (retrieveRelevantDocuments empty_response_env (String [113]) None None example_world)
     = Inl (Error (js ''Failed to generate query embedding''))"
  by (simp add: retrieveRelevantDocuments_def generateEmbedding_def generateEmbeddings_def
      valid_texts_def trim_q empty_response_env_def example_env_def Let_def js_def)


subsection \<open>Ingestion of one document\<close>

lemma generateEmbedding_redis_commands:
  "fst (generateEmbedding e query (w\<lparr>redis_commands := n\<rparr>)) = fst (generateEmbedding e query w)"
  by (simp add: generateEmbedding_def generateEmbeddings_def split: http_outcome.splits option.splits)

lemma obtain_embedding_hit:
  "getCachedEmbedding e (redis_commands w) (doc_id d) (redis w) = Some v \<Longrightarrow>
   obtain_embedding e d w = (Inr (Vector v), w\<lparr>redis_commands := redis_commands w + 1\<rparr>)"
  by (simp add: obtain_embedding_def)

lemma obtain_embedding_miss:
  assumes miss: "getCachedEmbedding e (redis_commands w) (doc_id d) (redis w) = None"
    and ok: "obtain_embedding e d w = (Inr emb, w1)"
  shows "fst (generateEmbedding e (String (createEmbeddingText d)) w) = Inr emb \<and>
         redis w1 = (redis w)(embedding_key (doc_id d) \<mapsto> (vector_of emb, clock e + embedding_ttl)) \<and>
         provider_calls w1 = provider_calls w + 1"
proof -
  define w0 where "w0 = w\<lparr>redis_commands := redis_commands w + 1\<rparr>"
  obtain r w' where g: "generateEmbedding e (String (createEmbeddingText d)) w0 = (r, w')"
    by (cases "generateEmbedding e (String (createEmbeddingText d)) w0")
  have fr: "redis w' = redis w" "provider_calls w' = provider_calls w + 1"
    using generateEmbedding_frame [of e "String (createEmbeddingText d)" w0] g
    by (simp_all add: w0_def)
  from ok miss g obtain x where r: "r = Inr x"
    by (cases r) (simp_all add: obtain_embedding_def w0_def)
  from ok miss g r obtain c where
    c: "cacheEmbedding e (redis_commands w') (doc_id d) x (redis w') = Inr c"
    and w1: "w1 = w'\<lparr>redis := c, redis_commands := redis_commands w' + 1\<rparr>" and emb: "emb = x"
    by (cases "cacheEmbedding e (redis_commands w') (doc_id d) x (redis w')")
       (simp_all add: obtain_embedding_def w0_def)
  from c have cv: "c = (redis w')(embedding_key (doc_id d) \<mapsto> (vector_of x, clock e + embedding_ttl))"
    by (auto simp: cacheEmbedding_def split: option.splits reply_embedding.splits)
  have "fst (generateEmbedding e (String (createEmbeddingText d)) w) = Inr x"
    using g r generateEmbedding_redis_commands [where e = e and query = "String (createEmbeddingText d)"
        and w = w and n = "redis_commands w + 1"]
    by (simp add: w0_def)
  then show ?thesis
    using emb w1 cv fr by simp
qed

lemma obtain_embedding_frame:
  "qdrant (snd (obtain_embedding e d w)) = qdrant w \<and>
   store_calls (snd (obtain_embedding e d w)) = store_calls w \<and>
   provider_calls (snd (obtain_embedding e d w)) \<le> provider_calls w + 1"
proof (cases "getCachedEmbedding e (redis_commands w) (doc_id d) (redis w)")
  case (Some v)
  then show ?thesis by (simp add: obtain_embedding_hit)
next
  case None
  define w0 where "w0 = w\<lparr>redis_commands := redis_commands w + 1\<rparr>"
  obtain r w' where g: "generateEmbedding e (String (createEmbeddingText d)) w0 = (r, w')"
    by (cases "generateEmbedding e (String (createEmbeddingText d)) w0")
  have fr: "qdrant w' = qdrant w" "store_calls w' = store_calls w"
      "provider_calls w' = provider_calls w + 1"
    using generateEmbedding_frame [of e "String (createEmbeddingText d)" w0] g
    by (simp_all add: w0_def)
  show ?thesis
    using None g fr
    by (cases r; cases "cacheEmbedding e (redis_commands w') (doc_id d) (projr r) (redis w')")
       (simp_all add: obtain_embedding_def w0_def)
qed

lemma processAndStoreDocument_success:
  assumes "processAndStoreDocument e d w = (Inr True, w1)"
  shows "\<exists>emb w'. obtain_embedding e d w = (Inr emb, w') \<and> redis w1 = redis w' \<and>
           provider_calls w1 = provider_calls w' \<and>
           storeDocument (backend e) (clock e) (with_embedding d (vector_of emb)) (qdrant w')
             = Inr (qdrant w1)"
proof -
  obtain r w' where o: "obtain_embedding e d w = (r, w')"
    by (cases "obtain_embedding e d w")
  from assms o obtain emb where r: "r = Inr emb"
    by (cases r) (simp_all add: processAndStoreDocument_def)
  from assms o r show ?thesis
    by (cases "storeDocument (backend e) (clock e) (with_embedding d (vector_of emb)) (qdrant w')")
       (auto simp: processAndStoreDocument_def)
qed

text \<open>
  Claim C5. Take two successful ingestions of documents of the same id, the second
  starting from the state the first left. If the first obtains a vector (from the cache
  or from the provider), the second starts before the cache entry of the first expires
  (seven days after it), and the read of the cache by the second does not fail, then
  the two call the embedding provider at most once. When the first finds no cached
  embedding, it calls the provider once and writes the vector it computed to the cache,
  and the second reads that vector from the cache, does not call the provider, and
  stores the document with that vector.
\<close>

theorem ingest_twice:
  assumes first: "processAndStoreDocument e1 d1 w = (Inr True, w1)"
    and vec: "fst (obtain_embedding e1 d1 w) = Inr (Vector v)"
    and second: "processAndStoreDocument e2 d2 w1 = (Inr True, w2)"
    and same: "doc_id d2 = doc_id d1"
    and fresh: "clock e2 < clock e1 + embedding_ttl"
    and readable: "redis_failure e2 (redis_commands w1) = None"
  shows "provider_calls w2 \<le> provider_calls w + 1 \<and>
         (getCachedEmbedding e1 (redis_commands w) (doc_id d1) (redis w) = None \<longrightarrow>
            fst (generateEmbedding e1 (String (createEmbeddingText d1)) w) = Inr (Vector v) \<and>
            redis w1 (embedding_key (doc_id d1)) = Some (Some v, clock e1 + embedding_ttl) \<and>
            getCachedEmbedding e2 (redis_commands w1) (doc_id d2) (redis w1) = Some v \<and>
            provider_calls w1 = provider_calls w + 1 \<and>
            provider_calls w2 = provider_calls w1 \<and>
            storeDocument (backend e2) (clock e2) (with_embedding d2 (Some v)) (qdrant w1)
              = Inr (qdrant w2))"
proof -
  from first obtain emb1 wa where o1: "obtain_embedding e1 d1 w = (Inr emb1, wa)"
    and ra: "redis w1 = redis wa" and pa: "provider_calls w1 = provider_calls wa"
    using processAndStoreDocument_success by blast
  from o1 vec have e1: "emb1 = Vector v" by simp
  from second obtain emb2 wb where o2: "obtain_embedding e2 d2 w1 = (Inr emb2, wb)"
    and rb: "redis w2 = redis wb" and pb: "provider_calls w2 = provider_calls wb"
    and sb: "storeDocument (backend e2) (clock e2) (with_embedding d2 (vector_of emb2)) (qdrant wb)
               = Inr (qdrant w2)"
    using processAndStoreDocument_success by blast
  have le2: "provider_calls wb \<le> provider_calls w1 + 1"
    using obtain_embedding_frame [of e2 d2 w1] o2 by simp
  have qb: "qdrant wb = qdrant w1"
    using obtain_embedding_frame [of e2 d2 w1] o2 by simp
  show ?thesis
  proof (cases "getCachedEmbedding e1 (redis_commands w) (doc_id d1) (redis w)")
    case (Some u)
    then have "provider_calls wa = provider_calls w" using o1 by (auto simp: obtain_embedding_hit)
    then show ?thesis using Some pa pb le2 by simp
  next
    case None
    from obtain_embedding_miss [OF None o1] e1 have
      g: "fst (generateEmbedding e1 (String (createEmbeddingText d1)) w) = Inr (Vector v)"
      and r1: "redis wa = (redis w)(embedding_key (doc_id d1) \<mapsto> (Some v, clock e1 + embedding_ttl))"
      and p1: "provider_calls wa = provider_calls w + 1"
      by simp_all
    have key: "redis w1 (embedding_key (doc_id d1)) = Some (Some v, clock e1 + embedding_ttl)"
      using ra r1 by simp
    have hit: "getCachedEmbedding e2 (redis_commands w1) (doc_id d2) (redis w1) = Some v"
      using key readable fresh same by (simp add: getCachedEmbedding_def)
    then have "obtain_embedding e2 d2 w1 = (Inr (Vector v), w1\<lparr>redis_commands := redis_commands w1 + 1\<rparr>)"
      by (rule obtain_embedding_hit)
    with o2 have wb: "provider_calls wb = provider_calls w1" and e2: "emb2 = Vector v" by auto
    show ?thesis
      using None g key hit p1 pa pb wb e2 sb qb by simp
  qed
qed

text \<open>The example environment at work on the example document.\<close>

lemma title_a: "js ''Title: '' @ [97] = [84, 105, 116, 108, 101, 58, 32, 97]"
  by (simp add: js_def)

lemma ws_title:
  "\<not> is_whitespace 84" "\<not> is_whitespace 105" "\<not> is_whitespace 116" "\<not> is_whitespace 108"
  "\<not> is_whitespace 101" "\<not> is_whitespace 58" "\<not> is_whitespace 97"
  by (simp_all add: is_whitespace_def)

lemma trim_title: "trim [84, 105, 116, 108, 101, 58, 32, 97] = [84, 105, 116, 108, 101, 58, 32, 97]"
  by (simp add: trim_def ws_title)

lemma createEmbeddingText_example:
  "createEmbeddingText (example_document i) = [84, 105, 116, 108, 101, 58, 32, 97]"
  by (simp add: createEmbeddingText_def example_document_def title_a prepareTextForEmbedding_def
      clean_text_eq trim_def ws_title ws_cases Let_def)

lemma valid_texts_example:
  "valid_texts [String [84, 105, 116, 108, 101, 58, 32, 97]] = [[84, 105, 116, 108, 101, 58, 32, 97]]"
  by (simp add: valid_texts_def trim_title)

lemma key_nonempty: "js ''key'' \<noteq> []"
  by (simp add: js_def)

lemma example_document_id: "doc_id (example_document i) = i"
  by (simp add: example_document_def)

lemma doc_id_with_embedding: "doc_id (with_embedding d emb) = doc_id d"
  by (simp add: with_embedding_def)

lemma generateEmbedding_title:
  assumes "jinaApiKey e = Some (js ''key'')"
    and "axios_post e (http_requests w) [[84, 105, 116, 108, 101, 58, 32, 97]] = Response (Some [x])"
  shows "generateEmbedding e (String (createEmbeddingText (example_document i))) w
     = (Inr x, w\<lparr>provider_calls := provider_calls w + 1, http_requests := http_requests w + 1\<rparr>)"
  using assms
  by (simp add: generateEmbedding_def generateEmbeddings_def createEmbeddingText_example
      valid_texts_example key_nonempty)

lemma obtain_embedding_title:
  assumes "jinaApiKey e = Some (js ''key'')"
    and "axios_post e (http_requests w) [[84, 105, 116, 108, 101, 58, 32, 97]] = Response (Some [x])"
    and "getCachedEmbedding e (redis_commands w) i (redis w) = None"
    and "redis_failure e (redis_commands w + 1) = None"
    and "x \<noteq> Absent"
  shows "obtain_embedding e (example_document i) w
     = (Inr x,
        w\<lparr>redis_commands := redis_commands w + 2, provider_calls := provider_calls w + 1,
          http_requests := http_requests w + 1,
          redis := (redis w)(embedding_key i \<mapsto> (vector_of x, clock e + embedding_ttl))\<rparr>)"
proof -
  have g: "generateEmbedding e (String (createEmbeddingText (example_document i)))
             (w\<lparr>redis_commands := redis_commands w + 1\<rparr>)
     = (Inr x, w\<lparr>redis_commands := redis_commands w + 1, provider_calls := provider_calls w + 1,
                  http_requests := http_requests w + 1\<rparr>)"
    using generateEmbedding_title [of e "w\<lparr>redis_commands := redis_commands w + 1\<rparr>" x i] assms(1,2)
    by simp
  have c: "cacheEmbedding e (redis_commands w + 1) i x (redis w)
     = Inr ((redis w)(embedding_key i \<mapsto> (vector_of x, clock e + embedding_ttl)))"
    using assms(4,5) by (cases x) (simp_all add: cacheEmbedding_def)
  show ?thesis
    using assms(3) g c by (simp add: obtain_embedding_def example_document_id)
qed

lemma process_fallback:
  "fallback (qdrant w) \<Longrightarrow>
   processAndStoreDocument e d w =
     (case obtain_embedding e d w of
        (Inl err, w1) \<Rightarrow> (Inl err, w1)
      | (Inr emb, w1) \<Rightarrow>
          (Inr True,
           w1\<lparr>qdrant := (qdrant w1)\<lparr>memoryStore :=
                  filter (\<lambda>x. point_id x \<noteq> doc_id d) (memoryStore (qdrant w1))
                  @ [make_point (clock e) (with_embedding d (vector_of emb))]\<rparr>,
              store_calls := store_calls w1 + 1\<rparr>))"
proof -
  assume "fallback (qdrant w)"
  then have "fallback (qdrant (snd (obtain_embedding e d w)))"
    using obtain_embedding_frame [of e d w] by simp
  then show ?thesis
    by (cases "obtain_embedding e d w")
       (auto simp: processAndStoreDocument_def storeDocument_def Let_def
          point_id_make_point doc_id_with_embedding split: sum.splits)
qed

lemma example_env_fields:
  "jinaApiKey example_env = Some (js ''key'')"
  "axios_post example_env n ts = Response (Some (map (\<lambda>t. Vector [1, 0]) ts))"
  "redis_failure example_env n = None"
  "clock example_env = 0"
  "backend example_env = example_client"
  by (simp_all add: example_env_def)

lemma ttl_value: "embedding_ttl = 604800"
  by (simp add: embedding_ttl_def)

lemma first_ingestion:
  "processAndStoreDocument (example_env\<lparr>clock := 0\<rparr>) (example_document [49]) example_world
     = (Inr True,
        \<lparr> qdrant = \<lparr> fallback = True,
                     memoryStore = [make_point 0 (with_embedding (example_document [49]) (Some [1, 0]))] \<rparr>,
          redis = [embedding_key [49] \<mapsto> (Some [1, 0], embedding_ttl)],
          redis_commands = 2, http_requests = 1, provider_calls = 1, store_calls = 1 \<rparr>)"
proof -
  have o: "obtain_embedding (example_env\<lparr>clock := 0\<rparr>) (example_document [49]) example_world
     = (Inr (Vector [1, 0]),
        example_world\<lparr>redis_commands := redis_commands example_world + 2,
          provider_calls := provider_calls example_world + 1,
          http_requests := http_requests example_world + 1,
          redis := (redis example_world)(embedding_key [49] \<mapsto>
             (vector_of (Vector [1, 0]), clock (example_env\<lparr>clock := 0\<rparr>) + embedding_ttl))\<rparr>)"
    by (rule obtain_embedding_title)
       (simp_all add: example_env_fields getCachedEmbedding_def example_world_def)
  have f: "fallback (qdrant example_world)"
    by (simp add: example_world_def)
  show ?thesis
    unfolding process_fallback [OF f] o
    by (simp add: example_env_fields example_world_def example_document_id)
qed


lemma after_first_fields:
  "fallback (qdrant after_first)"
  "redis after_first = [embedding_key [49] \<mapsto> (Some [1, 0], embedding_ttl)]"
  "redis_commands after_first = 2"
  "http_requests after_first = 1"
  "provider_calls after_first = 1"
  by (simp_all add: after_first_def)

lemma first_ingestion': 
  "processAndStoreDocument (example_env\<lparr>clock := 0\<rparr>) (example_document [49]) example_world
     = (Inr True, after_first)"
  by (simp add: first_ingestion after_first_def)

lemma second_ingestion_hit:
  "fst (processAndStoreDocument (example_env\<lparr>clock := 100\<rparr>) (example_document [49]) after_first)
     = Inr True \<and>
   provider_calls (snd (processAndStoreDocument (example_env\<lparr>clock := 100\<rparr>)
                          (example_document [49]) after_first)) = 1"
proof -
  have h: "getCachedEmbedding (example_env\<lparr>clock := 100\<rparr>) (redis_commands after_first)
             (doc_id (example_document [49])) (redis after_first) = Some [1, 0]"
    by (simp add: getCachedEmbedding_def example_env_fields after_first_fields ttl_value
        example_document_id)
  show ?thesis
    unfolding process_fallback [OF after_first_fields(1)] obtain_embedding_hit [OF h]
    by (simp add: after_first_fields)
qed

lemma second_ingestion_expired:
  "fst (processAndStoreDocument (example_env\<lparr>clock := 604800\<rparr>) (example_document [49]) after_first)
     = Inr True \<and>
   provider_calls (snd (processAndStoreDocument (example_env\<lparr>clock := 604800\<rparr>)
                          (example_document [49]) after_first)) = 2"
proof -
  have o: "obtain_embedding (example_env\<lparr>clock := 604800\<rparr>) (example_document [49]) after_first
     = (Inr (Vector [1, 0]),
        after_first\<lparr>redis_commands := redis_commands after_first + 2,
          provider_calls := provider_calls after_first + 1,
          http_requests := http_requests after_first + 1,
          redis := (redis after_first)(embedding_key [49] \<mapsto>
             (vector_of (Vector [1, 0]), clock (example_env\<lparr>clock := 604800\<rparr>) + embedding_ttl))\<rparr>)"
    by (rule obtain_embedding_title)
       (simp_all add: example_env_fields getCachedEmbedding_def after_first_fields ttl_value)
  show ?thesis
    unfolding process_fallback [OF after_first_fields(1)] o
    by (simp add: after_first_fields)
qed

lemma read_fails_env_fields:
  "jinaApiKey read_fails_env = Some (js ''key'')"
  "axios_post read_fails_env n ts = Response (Some (map (\<lambda>t. Vector [1, 0]) ts))"
  "redis_failure read_fails_env n = (if n = 2 then Some (Error (js ''timeout'')) else None)"
  "clock read_fails_env = 100"
  by (simp_all add: read_fails_env_def example_env_def)

lemma second_ingestion_read_fails:
  "fst (processAndStoreDocument read_fails_env (example_document [49]) after_first) = Inr True \<and>
   provider_calls (snd (processAndStoreDocument read_fails_env (example_document [49]) after_first))
     = 2"
proof -
  have o: "obtain_embedding read_fails_env (example_document [49]) after_first
     = (Inr (Vector [1, 0]),
        after_first\<lparr>redis_commands := redis_commands after_first + 2,
          provider_calls := provider_calls after_first + 1,
          http_requests := http_requests after_first + 1,
          redis := (redis after_first)(embedding_key [49] \<mapsto>
             (vector_of (Vector [1, 0]), clock read_fails_env + embedding_ttl))\<rparr>)"
    by (rule obtain_embedding_title)
       (simp_all add: read_fails_env_fields getCachedEmbedding_def after_first_fields)
  show ?thesis
    unfolding process_fallback [OF after_first_fields(1)] o
    by (simp add: after_first_fields)
qed

lemma after_first_null_fields:
  "fallback (qdrant after_first_null)"
  "redis after_first_null = [embedding_key [49] \<mapsto> (None, embedding_ttl)]"
  "redis_commands after_first_null = 2"
  "http_requests after_first_null = 1"
  "provider_calls after_first_null = 1"
  by (simp_all add: after_first_null_def)

lemma null_env_fields:
  "jinaApiKey null_response_env = Some (js ''key'')"
  "axios_post null_response_env n ts = Response (Some [JsonNull])"
  "redis_failure null_response_env n = None"
  "clock null_response_env = 0"
  by (simp_all add: null_response_env_def example_env_def)

lemma first_ingestion_null:
  "processAndStoreDocument (null_response_env\<lparr>clock := 0\<rparr>) (example_document [49]) example_world
     = (Inr True, after_first_null)"
proof -
  have o: "obtain_embedding (null_response_env\<lparr>clock := 0\<rparr>) (example_document [49]) example_world
     = (Inr JsonNull,
        example_world\<lparr>redis_commands := redis_commands example_world + 2,
          provider_calls := provider_calls example_world + 1,
          http_requests := http_requests example_world + 1,
          redis := (redis example_world)(embedding_key [49] \<mapsto>
             (vector_of JsonNull, clock (null_response_env\<lparr>clock := 0\<rparr>) + embedding_ttl))\<rparr>)"
    by (rule obtain_embedding_title)
       (simp_all add: null_env_fields getCachedEmbedding_def example_world_def)
  have f: "fallback (qdrant example_world)"
    by (simp add: example_world_def)
  show ?thesis
    unfolding process_fallback [OF f] o
    by (simp add: null_env_fields example_world_def example_document_id after_first_null_def)
qed

lemma second_ingestion_null:
  "fst (processAndStoreDocument (null_response_env\<lparr>clock := 100\<rparr>) (example_document [49])
          after_first_null) = Inr True \<and>
   provider_calls (snd (processAndStoreDocument (null_response_env\<lparr>clock := 100\<rparr>)
                          (example_document [49]) after_first_null)) = 2"
proof -
  have o: "obtain_embedding (null_response_env\<lparr>clock := 100\<rparr>) (example_document [49]) after_first_null
     = (Inr JsonNull,
        after_first_null\<lparr>redis_commands := redis_commands after_first_null + 2,
          provider_calls := provider_calls after_first_null + 1,
          http_requests := http_requests after_first_null + 1,
          redis := (redis after_first_null)(embedding_key [49] \<mapsto>
             (vector_of JsonNull, clock (null_response_env\<lparr>clock := 100\<rparr>) + embedding_ttl))\<rparr>)"
    by (rule obtain_embedding_title)
       (simp_all add: null_env_fields getCachedEmbedding_def after_first_null_fields)
  show ?thesis
    unfolding process_fallback [OF after_first_null_fields(1)] o
    by (simp add: after_first_null_fields)
qed


text \<open>
  Three pairs of successful ingestions of one document that call the provider twice:
  the second comes seven days after the first, when the cache entry has expired; the
  read of the cache by the second fails, and the handler takes the failure for a miss;
  the provider answers with a null embedding, which is cached as \<^verbatim>\<open>null\<close> and read
  back as a miss.
\<close>

theorem ingest_twice_calls_provider_twice:
  "fst (processAndStoreDocument (example_env\<lparr>clock := 0\<rparr>) (example_document [49]) example_world)
     = Inr True \<and>
   fst (processAndStoreDocument (example_env\<lparr>clock := 604800\<rparr>) (example_document [49])
          (snd (processAndStoreDocument (example_env\<lparr>clock := 0\<rparr>) (example_document [49])
                  example_world)))
     = Inr True \<and>
   provider_calls
     (snd (processAndStoreDocument (example_env\<lparr>clock := 604800\<rparr>) (example_document [49])
             (snd (processAndStoreDocument (example_env\<lparr>clock := 0\<rparr>) (example_document [49])
                     example_world))))
     = provider_calls example_world + 2 \<and>
   fst (processAndStoreDocument read_fails_env (example_document [49])
          (snd (processAndStoreDocument (example_env\<lparr>clock := 0\<rparr>) (example_document [49])
                  example_world)))
     = Inr True \<and>
   provider_calls
     (snd (processAndStoreDocument read_fails_env (example_document [49])
             (snd (processAndStoreDocument (example_env\<lparr>clock := 0\<rparr>) (example_document [49])
                     example_world))))
     = provider_calls example_world + 2 \<and>
   fst (processAndStoreDocument (null_response_env\<lparr>clock := 0\<rparr>) (example_document [49])
          example_world)
     = Inr True \<and>
   fst (processAndStoreDocument (null_response_env\<lparr>clock := 100\<rparr>) (example_document [49])
          (snd (processAndStoreDocument (null_response_env\<lparr>clock := 0\<rparr>) (example_document [49])
                  example_world)))
     = Inr True \<and>
   provider_calls
     (snd (processAndStoreDocument (null_response_env\<lparr>clock := 100\<rparr>) (example_document [49])
             (snd (processAndStoreDocument (null_response_env\<lparr>clock := 0\<rparr>)
                     (example_document [49]) example_world))))
     = provider_calls example_world + 2"
proof -
  have p0: "provider_calls example_world = 0"
    by (simp add: example_world_def)
  show ?thesis
    unfolding first_ingestion' first_ingestion_null snd_conv fst_conv p0
    using second_ingestion_expired second_ingestion_read_fails second_ingestion_null
    by simp
qed

theorem ingest_twice_witness:
  "processAndStoreDocument (example_env\<lparr>clock := 0\<rparr>) (example_document [49]) example_world
     = (Inr True, after_first) \<and>
   fst (obtain_embedding (example_env\<lparr>clock := 0\<rparr>) (example_document [49]) example_world)
     = Inr (Vector [1, 0]) \<and>
   fst (processAndStoreDocument (example_env\<lparr>clock := 100\<rparr>) (example_document [49]) after_first)
     = Inr True \<and>
   clock (example_env\<lparr>clock := 100\<rparr>) < clock (example_env\<lparr>clock := 0\<rparr>) + embedding_ttl \<and>
   redis_failure (example_env\<lparr>clock := 100\<rparr>) (redis_commands after_first) = None \<and>
   getCachedEmbedding (example_env\<lparr>clock := 0\<rparr>) (redis_commands example_world)
     (doc_id (example_document [49])) (redis example_world) = None \<and>
   provider_calls (snd (processAndStoreDocument (example_env\<lparr>clock := 100\<rparr>)
                          (example_document [49]) after_first))
     \<le> provider_calls example_world + 1 \<and>
   getCachedEmbedding (example_env\<lparr>clock := 100\<rparr>) (redis_commands after_first)
     (doc_id (example_document [49])) (redis after_first) = Some [1, 0] \<and>
   provider_calls (snd (processAndStoreDocument (example_env\<lparr>clock := 100\<rparr>)
                          (example_document [49]) after_first))
     = provider_calls after_first"
proof -
  define w2 where
    "w2 = snd (processAndStoreDocument (example_env\<lparr>clock := 100\<rparr>) (example_document [49]) after_first)"
  note a = first_ingestion'
  have v: "fst (obtain_embedding (example_env\<lparr>clock := 0\<rparr>) (example_document [49]) example_world)
             = Inr (Vector [1, 0])"
  proof -
    have "obtain_embedding (example_env\<lparr>clock := 0\<rparr>) (example_document [49]) example_world
     = (Inr (Vector [1, 0]),
        example_world\<lparr>redis_commands := redis_commands example_world + 2,
          provider_calls := provider_calls example_world + 1,
          http_requests := http_requests example_world + 1,
          redis := (redis example_world)(embedding_key [49] \<mapsto>
             (vector_of (Vector [1, 0]), clock (example_env\<lparr>clock := 0\<rparr>) + embedding_ttl))\<rparr>)"
      by (rule obtain_embedding_title)
         (simp_all add: example_env_fields getCachedEmbedding_def example_world_def)
    then show ?thesis by simp
  qed
  have b1: "fst (processAndStoreDocument (example_env\<lparr>clock := 100\<rparr>) (example_document [49])
                  after_first) = Inr True"
    using second_ingestion_hit by simp
  then have b: "processAndStoreDocument (example_env\<lparr>clock := 100\<rparr>) (example_document [49]) after_first
             = (Inr True, w2)"
    unfolding w2_def by (metis prod.collapse)
  have c: "clock (example_env\<lparr>clock := 100\<rparr>) < clock (example_env\<lparr>clock := 0\<rparr>) + embedding_ttl"
    by (simp add: ttl_value)
  have r: "redis_failure (example_env\<lparr>clock := 100\<rparr>) (redis_commands after_first) = None"
    by (simp add: example_env_fields)
  have d: "getCachedEmbedding (example_env\<lparr>clock := 0\<rparr>) (redis_commands example_world)
             (doc_id (example_document [49])) (redis example_world) = None"
    by (simp add: getCachedEmbedding_def example_env_fields example_world_def)
  from ingest_twice [OF a v b refl c r] d
  have "provider_calls w2 \<le> provider_calls example_world + 1"
    and "getCachedEmbedding (example_env\<lparr>clock := 100\<rparr>) (redis_commands after_first)
           (doc_id (example_document [49])) (redis after_first) = Some [1, 0]"
    and "provider_calls w2 = provider_calls after_first"
    by auto
  with a v b1 c r d show ?thesis
    unfolding w2_def by blast
qed

subsection \<open>Ingestion of a batch\<close>

lemma embed_loop_outcomes:
  "fst (embed_loop e ds acc w) = acc @ embedded (outcomes e ds w) \<and>
   qdrant (snd (embed_loop e ds acc w)) = qdrant w \<and>
   store_calls (snd (embed_loop e ds acc w)) = store_calls w"
proof (induction ds arbitrary: acc w)
  case Nil
  show ?case by (simp add: embedded_def)
next
  case (Cons d ds)
  obtain r w1 where o: "obtain_embedding e d w = (r, w1)"
    by (cases "obtain_embedding e d w")
  have fr: "qdrant w1 = qdrant w" "store_calls w1 = store_calls w"
    using obtain_embedding_frame [of e d w] o by simp_all
  show ?case
  proof (cases r)
    case (Inl err)
    with o fr Cons.IH [of acc w1] show ?thesis by (simp add: embedded_def)
  next
    case (Inr emb)
    with o fr Cons.IH [of "acc @ [with_embedding d (vector_of emb)]" w1] show ?thesis
      by (simp add: embedded_def)
  qed
qed

lemma outcomes_documents: "map fst (outcomes e ds w) = ds"
  by (induction ds arbitrary: w) simp_all

lemma embedded_ids:
  "map doc_id (embedded outs) = map (\<lambda>(d, r). doc_id d) (filter (\<lambda>(d, r). \<not> isl r) outs)"
proof (induction outs)
  case Nil
  show ?case by (simp add: embedded_def)
next
  case (Cons x outs)
  obtain d r where "x = (d, r)" by (cases x)
  with Cons show ?case
    by (cases r) (simp_all add: embedded_def doc_id_with_embedding)
qed

lemma embedded_length:
  "length (embedded outs) = length (filter (\<lambda>(d, r). \<not> isl r) outs)"
  using embedded_ids [of outs] by (metis length_map)

text \<open>
  Claim C6. For every batch, a document whose embedding step fails does not make the
  call fail: the call returns an error only when the store upsert itself fails, and
  never in fallback mode. The documents sent to the store are those whose step
  succeeded, in the order of the batch, and no other; the number returned is their
  number; the store is called once with all of them, after the loop, and not at all when
  there is none; and in fallback mode the memory store then holds a point for each of
  them, after the points it held under other ids.
\<close>

theorem batch_partial_failure:
  "(\<forall>err. fst (processAndStoreDocuments e ds w) = Inl err \<longrightarrow>
      \<not> fallback (qdrant w) \<and>
      upsert (backend e) (map (make_point (clock e)) (embedded (outcomes e ds w))) = Some err) \<and>
   (\<forall>n. fst (processAndStoreDocuments e ds w) = Inr n \<longrightarrow>
      n = length (filter (\<lambda>(d, r). \<not> isl r) (outcomes e ds w))) \<and>
   map fst (outcomes e ds w) = ds \<and>
   map doc_id (embedded (outcomes e ds w))
     = map (\<lambda>(d, r). doc_id d) (filter (\<lambda>(d, r). \<not> isl r) (outcomes e ds w)) \<and>
   (fallback (qdrant w) \<longrightarrow>
      fst (processAndStoreDocuments e ds w) = Inr (length (embedded (outcomes e ds w))) \<and>
      memoryStore (qdrant (snd (processAndStoreDocuments e ds w)))
        = filter (\<lambda>p. point_id p \<notin> set (map doc_id (embedded (outcomes e ds w))))
            (memoryStore (qdrant w))
          @ map (make_point (clock e)) (embedded (outcomes e ds w))) \<and>
   store_calls (snd (processAndStoreDocuments e ds w))
     = store_calls w + (if embedded (outcomes e ds w) = [] then 0 else 1)"
proof -
  define batch where "batch = embedded (outcomes e ds w)"
  define r where "r = processAndStoreDocuments e ds w"
  obtain b w1 where l: "embed_loop e ds [] w = (b, w1)"
    by (cases "embed_loop e ds [] w")
  have b: "b = batch" and q: "qdrant w1 = qdrant w" and s: "store_calls w1 = store_calls w"
    using embed_loop_outcomes [of e ds "[]" w] l by (simp_all add: batch_def)
  have ids: "map point_id (map (make_point (clock e)) batch) = map doc_id batch"
    by (simp add: comp_def point_id_make_point)
  have len: "length batch = length (filter (\<lambda>(d, r). \<not> isl r) (outcomes e ds w))"
    unfolding batch_def by (rule embedded_length)
  have all: "(\<forall>err. fst r = Inl err \<longrightarrow>
        \<not> fallback (qdrant w) \<and> upsert (backend e) (map (make_point (clock e)) batch) = Some err) \<and>
      (\<forall>n. fst r = Inr n \<longrightarrow> n = length batch) \<and>
      (fallback (qdrant w) \<longrightarrow>
         fst r = Inr (length batch) \<and>
         memoryStore (qdrant (snd r))
           = filter (\<lambda>p. point_id p \<notin> set (map doc_id batch)) (memoryStore (qdrant w))
             @ map (make_point (clock e)) batch) \<and>
      store_calls (snd r) = store_calls w + (if batch = [] then 0 else 1)"
  proof (cases "batch = []")
    case True
    then have "r = (Inr 0, w1)"
      using l b by (simp add: r_def processAndStoreDocuments_def)
    with True q s show ?thesis by simp
  next
    case False
    show ?thesis
    proof (cases "fallback (qdrant w)")
      case True
      have "storeDocuments (backend e) (clock e) batch (qdrant w1)
          = Inr ((qdrant w1)\<lparr>memoryStore :=
                   filter (\<lambda>p. point_id p \<notin> set (map doc_id batch)) (memoryStore (qdrant w1))
                   @ map (make_point (clock e)) batch\<rparr>)"
        using True q ids unfolding storeDocuments_def Let_def by simp
      then have "r = (Inr (length batch),
          w1\<lparr>qdrant := (qdrant w1)\<lparr>memoryStore :=
                   filter (\<lambda>p. point_id p \<notin> set (map doc_id batch)) (memoryStore (qdrant w1))
                   @ map (make_point (clock e)) batch\<rparr>,
             store_calls := store_calls w1 + 1\<rparr>)"
        using l b False by (simp add: r_def processAndStoreDocuments_def)
      with False True q s show ?thesis by simp
    next
      case nf: False
      show ?thesis
      proof (cases "upsert (backend e) (map (make_point (clock e)) batch)")
        case None
        then have "storeDocuments (backend e) (clock e) batch (qdrant w1) = Inr (qdrant w1)"
          using nf q by (simp add: storeDocuments_def Let_def)
        then have "r = (Inr (length batch),
            w1\<lparr>qdrant := qdrant w1, store_calls := store_calls w1 + 1\<rparr>)"
          using l b False by (simp add: r_def processAndStoreDocuments_def)
        with False nf s show ?thesis by simp
      next
        case (Some err)
        then have "storeDocuments (backend e) (clock e) batch (qdrant w1) = Inl err"
          using nf q by (simp add: storeDocuments_def Let_def)
        then have "r = (Inl err, w1\<lparr>store_calls := store_calls w1 + 1\<rparr>)"
          using l b False by (simp add: r_def processAndStoreDocuments_def)
        with False nf s Some show ?thesis by simp
      qed
    qed
  qed
  have docs: "map fst (outcomes e ds w) = ds"
    by (rule outcomes_documents)
  have idl: "map doc_id batch
      = map (\<lambda>(d, r). doc_id d) (filter (\<lambda>(d, r). \<not> isl r) (outcomes e ds w))"
    unfolding batch_def by (rule embedded_ids)
  from all have c1: "\<forall>err. fst r = Inl err \<longrightarrow>
        \<not> fallback (qdrant w) \<and> upsert (backend e) (map (make_point (clock e)) batch) = Some err"
    by (rule conjunct1)
  from all len have c2: "\<forall>n. fst r = Inr n \<longrightarrow>
        n = length (filter (\<lambda>(d, r). \<not> isl r) (outcomes e ds w))"
    by simp
  from all have c3: "fallback (qdrant w) \<longrightarrow>
         fst r = Inr (length batch) \<and>
         memoryStore (qdrant (snd r))
           = filter (\<lambda>p. point_id p \<notin> set (map doc_id batch)) (memoryStore (qdrant w))
             @ map (make_point (clock e)) batch"
    by (elim conjE)
  from all have c4: "store_calls (snd r) = store_calls w + (if batch = [] then 0 else 1)"
    by (elim conjE)
  show ?thesis
    using c1 c2 docs idl c3 c4 unfolding r_def batch_def
    by (intro conjI) assumption+
qed

text \<open>
  A batch of five documents while the embedding model does not answer the third
  request, and a batch of one while the networked backend rejects the upsert.
\<close>

lemma embedding_key_eq: "embedding_key i = embedding_key j \<longleftrightarrow> i = j"
  by (simp add: embedding_key_def)

lemma third_env_fields:
  "jinaApiKey third_request_fails_env = Some (js ''key'')"
  "redis_failure third_request_fails_env n = None"
  "clock third_request_fails_env = 0"
  "backend third_request_fails_env = example_client"
  "axios_post third_request_fails_env n ts
     = (if n = 2 then NoResponse else Response (Some (map (\<lambda>t. Vector [1, 0]) ts)))"
  by (simp_all add: third_request_fails_env_def example_env_def)

lemma generateEmbedding_third:
  "generateEmbedding third_request_fails_env (String (createEmbeddingText (example_document i))) w
     = (if http_requests w = 2
        then Inl (Error (js ''No response received from Jina API - check network connection''))
        else Inr (Vector [1, 0]),
        w\<lparr>provider_calls := provider_calls w + 1, http_requests := http_requests w + 1\<rparr>)"
  by (simp add: generateEmbedding_def generateEmbeddings_def createEmbeddingText_example
      valid_texts_example third_env_fields key_nonempty)

lemma obtain_embedding_third:
  "redis w (embedding_key i) = None \<Longrightarrow>
   obtain_embedding third_request_fails_env (example_document i) w
     = (if http_requests w = 2
        then (Inl (Error (js ''No response received from Jina API - check network connection'')),
              w\<lparr>redis_commands := redis_commands w + 1, provider_calls := provider_calls w + 1,
                http_requests := http_requests w + 1\<rparr>)
        else (Inr (Vector [1, 0]),
              w\<lparr>redis_commands := redis_commands w + 2, provider_calls := provider_calls w + 1,
                http_requests := http_requests w + 1,
                redis := (redis w)(embedding_key i \<mapsto> (Some [1, 0], embedding_ttl))\<rparr>))"
  by (simp add: obtain_embedding_def getCachedEmbedding_def cacheEmbedding_def
      generateEmbedding_third third_env_fields example_document_id)

lemma outcomes_example:
  "outcomes third_request_fails_env example_batch example_world
     = [(example_document [49], Inr (Vector [1, 0])),
        (example_document [50], Inr (Vector [1, 0])),
        (example_document [51],
         Inl (Error (js ''No response received from Jina API - check network connection''))),
        (example_document [52], Inr (Vector [1, 0])),
        (example_document [53], Inr (Vector [1, 0]))]"
  by (simp add: example_batch_def example_world_def obtain_embedding_third embedding_key_eq)


lemma embedded_example:
  "embedded (outcomes third_request_fails_env example_batch example_world)
     = [with_embedding (example_document [49]) (Some [1, 0]),
        with_embedding (example_document [50]) (Some [1, 0]),
        with_embedding (example_document [52]) (Some [1, 0]),
        with_embedding (example_document [53]) (Some [1, 0])]"
  by (simp add: outcomes_example embedded_def)

lemma failing_env_fields:
  "jinaApiKey failing_backend_env = Some (js ''key'')"
  "redis_failure failing_backend_env n = None"
  "clock failing_backend_env = 0"
  "upsert (backend failing_backend_env) ps = Some (Error (js ''down''))"
  "axios_post failing_backend_env n ts = Response (Some (map (\<lambda>t. Vector [1, 0]) ts))"
  by (simp_all add: failing_backend_env_def example_env_def)

lemma obtain_embedding_failing_backend:
  "redis w (embedding_key i) = None \<Longrightarrow>
   obtain_embedding failing_backend_env (example_document i) w
     = (Inr (Vector [1, 0]),
        w\<lparr>redis_commands := redis_commands w + 2, provider_calls := provider_calls w + 1,
          http_requests := http_requests w + 1,
          redis := (redis w)(embedding_key i \<mapsto> (vector_of (Vector [1, 0]),
                      clock failing_backend_env + embedding_ttl))\<rparr>)"
  by (rule obtain_embedding_title)
     (simp_all add: failing_env_fields getCachedEmbedding_def)

lemma batch_failing_backend:
  "fst (processAndStoreDocuments failing_backend_env [example_document [49]] networked_world)
     = Inl (Error (js ''down''))"
proof -
  have r: "redis networked_world (embedding_key [49]) = None"
    and f: "\<not> fallback (qdrant networked_world)"
    by (simp_all add: networked_world_def example_world_def)
  show ?thesis
    using f
    by (simp add: processAndStoreDocuments_def obtain_embedding_failing_backend [OF r]
        storeDocuments_def failing_env_fields Let_def)
qed

theorem batch_partial_failure_witness:
  "fallback (qdrant example_world) \<and>
   fst (processAndStoreDocuments third_request_fails_env example_batch example_world) = Inr 4 \<and>
   length (filter (\<lambda>(d, r). \<not> isl r)
             (outcomes third_request_fails_env example_batch example_world)) = 4 \<and>
   map point_id
     (memoryStore (qdrant (snd (processAndStoreDocuments third_request_fails_env example_batch
                                  example_world))))
     = [[49], [50], [52], [53]] \<and>
   store_calls (snd (processAndStoreDocuments third_request_fails_env example_batch example_world))
     = 1 \<and>
   fst (processAndStoreDocuments failing_backend_env [example_document [49]] networked_world)
     = Inl (Error (js ''down'')) \<and>
   \<not> fallback (qdrant networked_world)"
proof -
  have fb: "fallback (qdrant example_world)"
    and ms: "memoryStore (qdrant example_world) = []"
    and sc: "store_calls example_world = 0"
    by (simp_all add: example_world_def)
  note t = batch_partial_failure [of third_request_fails_env example_batch example_world]
  from t fb have a: "fst (processAndStoreDocuments third_request_fails_env example_batch example_world)
      = Inr 4"
    by (simp add: embedded_example)
  from t a have b: "length (filter (\<lambda>(d, r). \<not> isl r)
             (outcomes third_request_fails_env example_batch example_world)) = 4"
    by simp
  from t fb ms have c: "map point_id
     (memoryStore (qdrant (snd (processAndStoreDocuments third_request_fails_env example_batch
                                  example_world))))
     = [[49], [50], [52], [53]]"
    by (simp add: embedded_example point_id_make_point doc_id_with_embedding example_document_id)
  from t sc have d: "store_calls
      (snd (processAndStoreDocuments third_request_fails_env example_batch example_world)) = 1"
    by (simp add: embedded_example)
  note f = batch_failing_backend
  from batch_partial_failure [of failing_backend_env "[example_document [49]]" networked_world] f
  have g: "\<not> fallback (qdrant networked_world)"
    by blast
  from fb a b c d f g show ?thesis by blast
qed

end
